theory Spec2Isabelle
  imports Complex_Main "HOL-Library.Product_Lexorder" "HOL-Library.Multiset" "HOL-Library.Sublist"
begin

section \<open>Time\<close>

text \<open>
  A naive Python \<open>datetime\<close> is modelled as the number of microseconds since midnight of
  the first day of the proleptic calendar, a \<open>timedelta\<close> as a signed number of
  microseconds, and a \<open>time\<close> of day as the number of microseconds since midnight.
  Python floats are modelled as real numbers.
\<close>

type_synonym datetime = int
type_synonym timedelta = int
type_synonym time_of_day = int

definition us_per_second :: int where "us_per_second = 1000000"
definition us_per_minute :: int where "us_per_minute = 60000000"
definition us_per_hour :: int where "us_per_hour = 3600000000"
definition us_per_day :: int where "us_per_day = 86400000000"

text \<open>\<open>time(h, m)\<close>\<close>
definition time_hm :: "int \<Rightarrow> int \<Rightarrow> time_of_day" where
  "time_hm h m = h * us_per_hour + m * us_per_minute"

text \<open>\<open>dt.date()\<close>, as a day number\<close>
definition date_of :: "datetime \<Rightarrow> int" where
  "date_of t = t div us_per_day"

text \<open>\<open>dt.hour\<close>\<close>
definition hour_of :: "datetime \<Rightarrow> int" where
  "hour_of t = (t mod us_per_day) div us_per_hour"

text \<open>\<open>datetime.combine(d, t)\<close>\<close>
definition combine :: "int \<Rightarrow> time_of_day \<Rightarrow> datetime" where
  "combine d t = d * us_per_day + t"

text \<open>\<open>delta.days\<close>: a timedelta is normalised with non-negative seconds and microseconds,
  so its days field is the floor.\<close>
definition days :: "timedelta \<Rightarrow> int" where
  "days delta = delta div us_per_day"

text \<open>\<open>delta.total_seconds()\<close>\<close>
definition total_seconds :: "timedelta \<Rightarrow> real" where
  "total_seconds delta = real_of_int delta / real_of_int us_per_second"

text \<open>\<open>timedelta(minutes=m)\<close> and \<open>timedelta(days=d)\<close>\<close>
definition timedelta_minutes :: "int \<Rightarrow> timedelta" where
  "timedelta_minutes m = m * us_per_minute"

definition timedelta_days :: "int \<Rightarrow> timedelta" where
  "timedelta_days d = d * us_per_day"

text \<open>\<open>int(x)\<close> on a float truncates towards zero.\<close>
definition py_int :: "real \<Rightarrow> int" where
  "py_int x = (if 0 \<le> x then \<lfloor>x\<rfloor> else \<lceil>x\<rceil>)"

section \<open>Errors\<close>

datatype error = ValueError | ZeroDivisionError

section \<open>models/schedule.py\<close>

datatype BlockType = STUDY | BREAK | CLASS | WORK | PERSONAL | BUFFER

record TimeBlock =
  start_time :: datetime
  end_time :: datetime
  block_type :: BlockType
  title :: string
  description :: "string option"
  assignment_id :: "int option"
  course_id :: "int option"
  is_fixed :: bool
  priority :: int
  tags :: "string list"

text \<open>The validator \<open>end_time_after_start\<close>, run when a \<open>TimeBlock\<close> is constructed.\<close>
definition end_time_after_start :: "TimeBlock \<Rightarrow> error + TimeBlock" where
  "end_time_after_start b =
     (if end_time b \<le> start_time b then Inl ValueError else Inr b)"

definition duration_minutes :: "TimeBlock \<Rightarrow> int" where
  "duration_minutes b = py_int (total_seconds (end_time b - start_time b) / 60)"

definition is_study_block :: "TimeBlock \<Rightarrow> bool" where
  "is_study_block b = (block_type b = STUDY)"

definition overlaps_with :: "TimeBlock \<Rightarrow> TimeBlock \<Rightarrow> bool" where
  "overlaps_with self other =
     (start_time self < end_time other \<and> end_time self > start_time other)"

record Schedule =
  date :: datetime
  time_blocks :: "TimeBlock list"
  total_study_time :: int
  total_break_time :: int
  efficiency_score :: real

text \<open>\<open>Schedule(date=d)\<close>; each instance gets its own copy of the default list.\<close>
definition new_Schedule :: "datetime \<Rightarrow> Schedule" where
  "new_Schedule d =
     \<lparr> date = d, time_blocks = [], total_study_time = 0, total_break_time = 0,
       efficiency_score = 0 \<rparr>"

text \<open>\<open>Schedule._can_add_block\<close>, on the block list of the schedule\<close>
fun can_add_block :: "TimeBlock list \<Rightarrow> TimeBlock \<Rightarrow> bool" where
  "can_add_block [] block = True"
| "can_add_block (existing_block # rest) block =
     (if overlaps_with block existing_block then False else can_add_block rest block)"

definition update_metrics :: "Schedule \<Rightarrow> Schedule" where
  "update_metrics s =
     (let study = sum_list (map duration_minutes
                    (filter (\<lambda>b. block_type b = STUDY) (time_blocks s)));
          brk = sum_list (map duration_minutes
                    (filter (\<lambda>b. block_type b = BREAK) (time_blocks s)));
          total_time = sum_list (map duration_minutes (time_blocks s))
      in s \<lparr> total_study_time := study, total_break_time := brk,
             efficiency_score :=
               (if total_time > 0 then real_of_int study / real_of_int total_time else 0) \<rparr>)"

text \<open>\<open>Schedule.add_block\<close>: the updated schedule and the returned flag\<close>
definition add_block :: "Schedule \<Rightarrow> TimeBlock \<Rightarrow> Schedule \<times> bool" where
  "add_block s block =
     (if can_add_block (time_blocks s) block
      then (update_metrics (s \<lparr> time_blocks := time_blocks s @ [block] \<rparr>), True)
      else (s, False))"

text \<open>\<open>list.pop(i)\<close> for an index known to be in range\<close>
definition pop_at :: "'a list \<Rightarrow> nat \<Rightarrow> 'a list" where
  "pop_at xs i = take i xs @ drop (Suc i) xs"

text \<open>\<open>Schedule.remove_block\<close>\<close>
definition remove_block :: "Schedule \<Rightarrow> int \<Rightarrow> Schedule \<times> bool" where
  "remove_block s block_id =
     (if 0 \<le> block_id \<and> block_id < int (length (time_blocks s))
      then (update_metrics (s \<lparr> time_blocks := pop_at (time_blocks s) (nat block_id) \<rparr>), True)
      else (s, False))"

text \<open>The loop of \<open>Schedule.get_available_slots\<close> over the sorted blocks: the slots emitted
  so far and the cursor \<open>current_time\<close>.\<close>
fun walk_blocks ::
  "int \<Rightarrow> TimeBlock list \<Rightarrow> (datetime \<times> datetime) list \<times> datetime
     \<Rightarrow> (datetime \<times> datetime) list \<times> datetime" where
  "walk_blocks duration [] (available_slots, current_time) = (available_slots, current_time)"
| "walk_blocks duration (block # rest) (available_slots, current_time) =
     walk_blocks duration rest
       ((if total_seconds (start_time block - current_time) \<ge> real_of_int (duration * 60)
         then available_slots @ [(current_time, start_time block)]
         else available_slots),
        end_time block)"

definition get_available_slots ::
  "Schedule \<Rightarrow> int \<Rightarrow> time_of_day \<Rightarrow> time_of_day \<Rightarrow> (datetime \<times> datetime) list" where
  "get_available_slots s duration st et =
     (let start_dt = combine (date_of (date s)) st;
          end_dt = combine (date_of (date s)) et;
          sorted_blocks = sort_key start_time (time_blocks s);
          (available_slots, current_time) = walk_blocks duration sorted_blocks ([], start_dt)
      in if total_seconds (end_dt - current_time) \<ge> real_of_int (duration * 60)
         then available_slots @ [(current_time, end_dt)]
         else available_slots)"

definition get_blocks_by_type :: "Schedule \<Rightarrow> BlockType \<Rightarrow> TimeBlock list" where
  "get_blocks_by_type s t = filter (\<lambda>b. block_type b = t) (time_blocks s)"

definition get_study_blocks :: "Schedule \<Rightarrow> TimeBlock list" where
  "get_study_blocks s = get_blocks_by_type s STUDY"

section \<open>models/assignment.py\<close>

datatype AssignmentType = HOMEWORK | QUIZ | EXAM | PROJECT | DISCUSSION | ESSAY | LAB_REPORT | OTHER

datatype Priority = LOW | MEDIUM | HIGH | URGENT

text \<open>The strings that the members of the two string enumerations stand for\<close>
fun assignment_type_value :: "AssignmentType \<Rightarrow> string" where
  "assignment_type_value HOMEWORK = ''homework''"
| "assignment_type_value QUIZ = ''quiz''"
| "assignment_type_value EXAM = ''exam''"
| "assignment_type_value PROJECT = ''project''"
| "assignment_type_value DISCUSSION = ''discussion''"
| "assignment_type_value ESSAY = ''essay''"
| "assignment_type_value LAB_REPORT = ''lab_report''"
| "assignment_type_value OTHER = ''other''"

fun priority_value :: "Priority \<Rightarrow> string" where
  "priority_value LOW = ''low''"
| "priority_value MEDIUM = ''medium''"
| "priority_value HIGH = ''high''"
| "priority_value URGENT = ''urgent''"

text \<open>The fields of \<open>Assignment\<close>; those whose names \<open>TimeBlock\<close> already uses carry the
  prefix \<open>a_\<close>.\<close>
record Assignment =
  a_id :: int
  name :: string
  a_course_id :: int
  course_name :: string
  due_date :: "datetime option"
  assignment_type :: AssignmentType
  a_priority :: Priority
  estimated_duration :: int
  difficulty :: int
  requires_preparation :: bool
  preparation_time :: int
  is_completed :: bool

definition total_time_needed :: "Assignment \<Rightarrow> int" where
  "total_time_needed a = estimated_duration a + preparation_time a"

text \<open>\<open>Assignment.days_until_due\<close>; the clock reading \<open>datetime.now()\<close> is the
  parameter \<open>now\<close>.\<close>
definition days_until_due :: "datetime \<Rightarrow> Assignment \<Rightarrow> int option" where
  "days_until_due now a =
     (case due_date a of
        None \<Rightarrow> None
      | Some due \<Rightarrow> Some (max 0 (days (due - now))))"

text \<open>The dictionary \<open>priority_scores\<close> of \<open>urgency_score\<close>\<close>
fun priority_scores :: "Priority \<Rightarrow> real" where
  "priority_scores LOW = 1"
| "priority_scores MEDIUM = 2"
| "priority_scores HIGH = 3"
| "priority_scores URGENT = 4"

definition urgency_score :: "datetime \<Rightarrow> Assignment \<Rightarrow> real" where
  "urgency_score now a =
     (case days_until_due now a of
        None \<Rightarrow> 0
      | Some days_left \<Rightarrow>
          (if days_left = 0 then 10
           else
             (let base_score = priority_scores (a_priority a);
                  time_multiplier =
                    (if days_left \<le> 3 then 3
                     else if days_left \<le> 7 then 2
                     else if days_left \<le> 14 then 3 / 2
                     else 1)
              in base_score * time_multiplier)))"

section \<open>models/work_schedule.py\<close>

text \<open>The fields of \<open>WorkShift\<close> the scheduler reads, with the prefix \<open>shift_\<close>.\<close>
record WorkShift =
  shift_id :: string
  shift_start_time :: datetime
  shift_end_time :: datetime
  role :: string
  location :: "string option"

definition shift_date :: "WorkShift \<Rightarrow> datetime" where
  "shift_date w = shift_start_time w"

section \<open>core/scheduler.py\<close>

record SchedulingConstraints =
  c_start_time :: time_of_day
  c_end_time :: time_of_day
  max_study_session :: int
  min_study_session :: int
  break_duration :: int
  buffer_time :: int
  preferred_study_hours :: "int \<times> int"

definition default_constraints :: SchedulingConstraints where
  "default_constraints =
     \<lparr> c_start_time = time_hm 9 0, c_end_time = time_hm 22 0, max_study_session = 120,
       min_study_session = 30, break_duration = 15, buffer_time = 30,
       preferred_study_hours = (9, 22) \<rparr>"

text \<open>The dictionary \<open>priority_order\<close> of \<open>sort_key\<close>\<close>
fun priority_order :: "Priority \<Rightarrow> int" where
  "priority_order LOW = 1"
| "priority_order MEDIUM = 2"
| "priority_order HIGH = 3"
| "priority_order URGENT = 4"

text \<open>The key function of \<open>_sort_assignments_by_priority\<close>; tuples compare
  lexicographically. All keys of one sort are taken at the same reading \<open>now\<close> of the
  clock.\<close>
definition assignment_sort_key :: "datetime \<Rightarrow> Assignment \<Rightarrow> real \<times> int" where
  "assignment_sort_key now a = (- urgency_score now a, - priority_order (a_priority a))"

text \<open>Python's \<open>sorted\<close> is a stable sort by the key, as is \<open>sort_key\<close>.\<close>
definition sort_assignments_by_priority :: "datetime \<Rightarrow> Assignment list \<Rightarrow> Assignment list" where
  "sort_assignments_by_priority now assignments = sort_key (assignment_sort_key now) assignments"

text \<open>The second loop body of \<open>_add_fixed_blocks\<close> builds the block of a shift; its
  construction runs the validator.\<close>
definition work_block :: "WorkShift \<Rightarrow> error + TimeBlock" where
  "work_block w =
     end_time_after_start
       \<lparr> start_time = shift_start_time w, end_time = shift_end_time w, block_type = WORK,
         title = ''Work - '' @ role w, description = None, assignment_id = None,
         course_id = None, is_fixed = True, priority = 1, tags = [] \<rparr>"

fun add_class_blocks :: "Schedule \<Rightarrow> TimeBlock list \<Rightarrow> datetime \<Rightarrow> Schedule" where
  "add_class_blocks schedule [] d = schedule"
| "add_class_blocks schedule (class_block # rest) d =
     (if date_of (start_time class_block) = date_of d
      then add_class_blocks (fst (add_block schedule class_block)) rest d
      else add_class_blocks schedule rest d)"

fun add_work_shifts :: "Schedule \<Rightarrow> WorkShift list \<Rightarrow> datetime \<Rightarrow> error + Schedule" where
  "add_work_shifts schedule [] d = Inr schedule"
| "add_work_shifts schedule (work_shift # rest) d =
     (if date_of (shift_date work_shift) = date_of d
      then (case work_block work_shift of
              Inl e \<Rightarrow> Inl e
            | Inr b \<Rightarrow> add_work_shifts (fst (add_block schedule b)) rest d)
      else add_work_shifts schedule rest d)"

definition add_fixed_blocks ::
  "Schedule \<Rightarrow> TimeBlock list \<Rightarrow> WorkShift list \<Rightarrow> datetime \<Rightarrow> error + Schedule" where
  "add_fixed_blocks schedule class_schedule work_shifts d =
     add_work_shifts (add_class_blocks schedule class_schedule d) work_shifts d"

definition can_schedule_assignment :: "Assignment \<Rightarrow> datetime \<Rightarrow> bool" where
  "can_schedule_assignment a d =
     (if is_completed a then False
      else if (case due_date a of None \<Rightarrow> False | Some due \<Rightarrow> date_of due < date_of d)
      then False
      else if (case due_date a of None \<Rightarrow> False | Some due \<Rightarrow> days (due - d) < 0)
      then False
      else True)"

definition calculate_time_preference_score :: "datetime \<Rightarrow> real" where
  "calculate_time_preference_score st =
     (let hour = hour_of st in
      if 9 \<le> hour \<and> hour < 12 then 1
      else if 12 \<le> hour \<and> hour < 17 then 8 / 10
      else if 17 \<le> hour \<and> hour < 22 then 6 / 10
      else 2 / 10)"

text \<open>The search loop of \<open>_schedule_single_assignment\<close>: the state is \<open>best_slot\<close> and
  \<open>best_score\<close>. Dividing by a \<open>time_needed\<close> of zero raises.\<close>
fun find_best_slot ::
  "int \<Rightarrow> (datetime \<times> datetime) list \<Rightarrow> (datetime \<times> datetime) option \<times> real
     \<Rightarrow> error + (datetime \<times> datetime) option \<times> real" where
  "find_best_slot time_needed [] (best_slot, best_score) = Inr (best_slot, best_score)"
| "find_best_slot time_needed ((st, et) # rest) (best_slot, best_score) =
     (let slot_duration = total_seconds (et - st) / 60 in
      if slot_duration \<ge> real_of_int time_needed
      then
        (if time_needed = 0 then Inl ZeroDivisionError
         else
           (let fit_score = 1 - (\<bar>slot_duration - real_of_int time_needed\<bar> / real_of_int time_needed);
                time_score = calculate_time_preference_score st;
                total_score = fit_score * (6 / 10) + time_score * (4 / 10)
            in if total_score > best_score
               then find_best_slot time_needed rest (Some (st, et), total_score)
               else find_best_slot time_needed rest (best_slot, best_score)))
      else find_best_slot time_needed rest (best_slot, best_score))"

definition study_block :: "Assignment \<Rightarrow> datetime \<Rightarrow> int \<Rightarrow> error + TimeBlock" where
  "study_block a st time_needed =
     end_time_after_start
       \<lparr> start_time = st, end_time = st + timedelta_minutes time_needed, block_type = STUDY,
         title = ''Study: '' @ name a, description = Some (''Course: '' @ course_name a),
         assignment_id = Some (a_id a), course_id = Some (a_course_id a), is_fixed = False,
         priority = 1,
         tags = [assignment_type_value (assignment_type a), priority_value (a_priority a)] \<rparr>"

text \<open>\<open>_schedule_single_assignment\<close> mutates the schedule and the list of slots; both are
  returned.\<close>
definition schedule_single_assignment ::
  "SchedulingConstraints \<Rightarrow> Schedule \<Rightarrow> Assignment \<Rightarrow> (datetime \<times> datetime) list
     \<Rightarrow> error + Schedule \<times> (datetime \<times> datetime) list" where
  "schedule_single_assignment c schedule a available_slots =
     (let time_needed = total_time_needed a in
      case find_best_slot time_needed available_slots (None, - 1) of
        Inl e \<Rightarrow> Inl e
      | Inr (None, _) \<Rightarrow> Inr (schedule, available_slots)
      | Inr (Some (st, et), _) \<Rightarrow>
          (case study_block a st time_needed of
             Inl e \<Rightarrow> Inl e
           | Inr b \<Rightarrow>
               (case add_block schedule b of
                  (schedule', True) \<Rightarrow> Inr (schedule', remove1 (st, et) available_slots)
                | (schedule', False) \<Rightarrow> Inr (schedule', available_slots))))"

text \<open>The placement loop of \<open>_schedule_assignments_for_day\<close>\<close>
fun place_assignments ::
  "SchedulingConstraints \<Rightarrow> Schedule \<Rightarrow> Assignment list \<Rightarrow> datetime
     \<Rightarrow> (datetime \<times> datetime) list \<Rightarrow> error + Schedule \<times> (datetime \<times> datetime) list" where
  "place_assignments c schedule [] d available_slots = Inr (schedule, available_slots)"
| "place_assignments c schedule (a # rest) d available_slots =
     (if can_schedule_assignment a d
      then (case schedule_single_assignment c schedule a available_slots of
              Inl e \<Rightarrow> Inl e
            | Inr (schedule', slots') \<Rightarrow> place_assignments c schedule' rest d slots')
      else place_assignments c schedule rest d available_slots)"

definition schedule_assignments_for_day ::
  "SchedulingConstraints \<Rightarrow> Schedule \<Rightarrow> Assignment list \<Rightarrow> datetime \<Rightarrow> error + Schedule" where
  "schedule_assignments_for_day c schedule assignments d =
     (let available_assignments = filter (\<lambda>a. \<not> is_completed a) assignments in
      if available_assignments = [] then Inr schedule
      else
        (let available_slots =
               get_available_slots schedule (min_study_session c) (c_start_time c) (c_end_time c)
         in if available_slots = [] then Inr schedule
            else (case place_assignments c schedule available_assignments d available_slots of
                    Inl e \<Rightarrow> Inl e
                  | Inr (schedule', _) \<Rightarrow> Inr schedule')))"

definition break_block :: "datetime \<Rightarrow> int \<Rightarrow> error + TimeBlock" where
  "break_block break_start bd =
     end_time_after_start
       \<lparr> start_time = break_start, end_time = break_start + timedelta_minutes bd,
         block_type = BREAK, title = ''Break'', description = Some ''Study break'',
         assignment_id = None, course_id = None, is_fixed = False, priority = 1, tags = [] \<rparr>"

text \<open>The loop of \<open>_add_breaks_and_optimize\<close> over the adjacent pairs of the sorted study
  blocks\<close>
fun add_breaks_loop :: "SchedulingConstraints \<Rightarrow> Schedule \<Rightarrow> TimeBlock list \<Rightarrow> error + Schedule" where
  "add_breaks_loop c schedule (current_block # next_block # rest) =
     (let time_between = total_seconds (start_time next_block - end_time current_block) / 60 in
      if time_between \<ge> real_of_int (break_duration c)
      then (case break_block (end_time current_block) (break_duration c) of
              Inl e \<Rightarrow> Inl e
            | Inr b \<Rightarrow> add_breaks_loop c (fst (add_block schedule b)) (next_block # rest))
      else add_breaks_loop c schedule (next_block # rest))"
| "add_breaks_loop c schedule _ = Inr schedule"

definition add_breaks_and_optimize :: "SchedulingConstraints \<Rightarrow> Schedule \<Rightarrow> error + Schedule" where
  "add_breaks_and_optimize c schedule =
     (let study_blocks = get_study_blocks schedule in
      if length study_blocks < 2 then Inr schedule
      else add_breaks_loop c schedule (sort_key start_time study_blocks))"

text \<open>One iteration of the loop of \<open>create_schedule\<close>\<close>
definition schedule_day ::
  "SchedulingConstraints \<Rightarrow> Assignment list \<Rightarrow> WorkShift list \<Rightarrow> TimeBlock list \<Rightarrow> datetime
     \<Rightarrow> error + Schedule" where
  "schedule_day c sorted_assignments work_shifts class_schedule current_date =
     (case add_fixed_blocks (new_Schedule current_date) class_schedule work_shifts current_date of
        Inl e \<Rightarrow> Inl e
      | Inr s1 \<Rightarrow>
          (case schedule_assignments_for_day c s1 sorted_assignments current_date of
             Inl e \<Rightarrow> Inl e
           | Inr s2 \<Rightarrow> add_breaks_and_optimize c s2))"

fun schedule_days ::
  "SchedulingConstraints \<Rightarrow> Assignment list \<Rightarrow> WorkShift list \<Rightarrow> TimeBlock list \<Rightarrow> datetime
     \<Rightarrow> nat \<Rightarrow> error + Schedule list" where
  "schedule_days c sorted_assignments work_shifts class_schedule current_date 0 = Inr []"
| "schedule_days c sorted_assignments work_shifts class_schedule current_date (Suc n) =
     (case schedule_day c sorted_assignments work_shifts class_schedule current_date of
        Inl e \<Rightarrow> Inl e
      | Inr schedule \<Rightarrow>
          (case schedule_days c sorted_assignments work_shifts class_schedule
                  (current_date + timedelta_days 1) n of
             Inl e \<Rightarrow> Inl e
           | Inr schedules \<Rightarrow> Inr (schedule # schedules)))"

text \<open>\<open>SmartScheduler.create_schedule\<close>; \<open>range(days_ahead)\<close> is empty for a negative
  \<open>days_ahead\<close>.\<close>
definition create_schedule ::
  "SchedulingConstraints \<Rightarrow> datetime \<Rightarrow> Assignment list \<Rightarrow> WorkShift list \<Rightarrow> TimeBlock list
     \<Rightarrow> datetime \<Rightarrow> int \<Rightarrow> error + Schedule list" where
  "create_schedule c now assignments work_shifts class_schedule start_date days_ahead =
     schedule_days c (sort_assignments_by_priority now assignments) work_shifts class_schedule
       start_date (nat days_ahead)"

section \<open>Specification predicates\<close>

text \<open>The invariant of a day's container: no two of its blocks overlap.\<close>
fun pairwise_disjoint :: "TimeBlock list \<Rightarrow> bool" where
  "pairwise_disjoint [] = True"
| "pairwise_disjoint (b # bs) = (list_all (\<lambda>e. \<not> overlaps_with b e) bs \<and> pairwise_disjoint bs)"

text \<open>The defining formulas of the cached metrics. Where the blocks total zero minutes (no
  blocks at all, or only blocks shorter than a minute) the quotient is undefined and the
  efficiency is 0.\<close>
definition study_minutes :: "TimeBlock list \<Rightarrow> int" where
  "study_minutes bs = (\<Sum>b \<leftarrow> bs. if block_type b = STUDY then duration_minutes b else 0)"

definition break_minutes :: "TimeBlock list \<Rightarrow> int" where
  "break_minutes bs = (\<Sum>b \<leftarrow> bs. if block_type b = BREAK then duration_minutes b else 0)"

definition all_minutes :: "TimeBlock list \<Rightarrow> int" where
  "all_minutes bs = (\<Sum>b \<leftarrow> bs. duration_minutes b)"

definition metrics_fresh :: "Schedule \<Rightarrow> bool" where
  "metrics_fresh s \<longleftrightarrow>
     total_study_time s = study_minutes (time_blocks s)
     \<and> total_break_time s = break_minutes (time_blocks s)
     \<and> efficiency_score s =
         (if time_blocks s = [] \<or> all_minutes (time_blocks s) = 0 then 0
          else real_of_int (study_minutes (time_blocks s)) / real_of_int (all_minutes (time_blocks s)))"

text \<open>The urgency score in the words of the specification: the weight of the priority times
  a step function of the days until due, the latter being the floor of the time from now to
  the due date in days, never below 0.\<close>
definition priority_weight :: "Priority \<Rightarrow> real" where
  "priority_weight p = (case p of LOW \<Rightarrow> 1 | MEDIUM \<Rightarrow> 2 | HIGH \<Rightarrow> 3 | URGENT \<Rightarrow> 4)"

definition time_multiplier_spec :: "int \<Rightarrow> real" where
  "time_multiplier_spec d = (if d \<le> 3 then 3 else if d \<le> 7 then 2 else if d \<le> 14 then 15 / 10 else 1)"

definition days_until_due_spec :: "datetime \<Rightarrow> datetime \<Rightarrow> int" where
  "days_until_due_spec now due = max 0 \<lfloor>real_of_int (due - now) / real_of_int us_per_day\<rfloor>"

definition urgency_spec :: "datetime \<Rightarrow> Assignment \<Rightarrow> real" where
  "urgency_spec now a =
     (case due_date a of
        None \<Rightarrow> 0
      | Some due \<Rightarrow>
          if days_until_due_spec now due = 0 then 10
          else priority_weight (a_priority a) * time_multiplier_spec (days_until_due_spec now due))"

text \<open>The priority levels, from the lowest to the highest: low, medium, high, urgent.\<close>
definition priority_level :: "Priority \<Rightarrow> nat" where
  "priority_level p = (case p of LOW \<Rightarrow> 0 | MEDIUM \<Rightarrow> 1 | HIGH \<Rightarrow> 2 | URGENT \<Rightarrow> 3)"

text \<open>The order of the ranking: a task comes no later than another when its urgency is
  higher, or the urgencies are equal and its priority level is at least the other's.\<close>
definition ranked_before :: "datetime \<Rightarrow> Assignment \<Rightarrow> Assignment \<Rightarrow> bool" where
  "ranked_before now a b \<longleftrightarrow>
     urgency_spec now a > urgency_spec now b
     \<or> (urgency_spec now a = urgency_spec now b
        \<and> priority_level (a_priority a) \<ge> priority_level (a_priority b))"

text \<open>The due date of a task falls strictly before the target day.\<close>
definition due_before_day :: "Assignment \<Rightarrow> datetime \<Rightarrow> bool" where
  "due_before_day a d = (case due_date a of None \<Rightarrow> False | Some due \<Rightarrow> date_of due < date_of d)"

text \<open>The length of a free slot in minutes, as \<open>_schedule_single_assignment\<close> computes it.\<close>
definition slot_minutes :: "datetime \<times> datetime \<Rightarrow> real" where
  "slot_minutes slot = total_seconds (snd slot - fst slot) / 60"

text \<open>A study block that stands for a task: it carries the task's identifier and lasts the
  task's estimated effort plus its preparation time, in minutes of 60000000 microseconds.\<close>
definition block_for_task :: "TimeBlock \<Rightarrow> Assignment \<Rightarrow> bool" where
  "block_for_task b a \<longleftrightarrow>
     block_type b = STUDY \<and> assignment_id b = Some (a_id a)
     \<and> duration_minutes b = estimated_duration a + preparation_time a
     \<and> end_time b - start_time b = (estimated_duration a + preparation_time a) * 60000000"

text \<open>The score of a candidate slot for a task that needs \<open>tn\<close> minutes.\<close>
definition slot_score :: "int \<Rightarrow> datetime \<times> datetime \<Rightarrow> real" where
  "slot_score tn slot =
     (1 - \<bar>slot_minutes slot - real_of_int tn\<bar> / real_of_int tn) * (6 / 10)
     + calculate_time_preference_score (fst slot) * (4 / 10)"

text \<open>The Slot Finder in the words of the specification: the walk moves the cursor to the
  end of each block, but never backward.\<close>
fun walk_blocks_spec ::
  "int \<Rightarrow> TimeBlock list \<Rightarrow> (datetime \<times> datetime) list \<times> datetime
     \<Rightarrow> (datetime \<times> datetime) list \<times> datetime" where
  "walk_blocks_spec duration [] (slots, cursor) = (slots, cursor)"
| "walk_blocks_spec duration (block # rest) (slots, cursor) =
     walk_blocks_spec duration rest
       ((if total_seconds (start_time block - cursor) \<ge> real_of_int (duration * 60)
         then slots @ [(cursor, start_time block)]
         else slots),
        max cursor (end_time block))"

definition slot_finder_spec ::
  "Schedule \<Rightarrow> int \<Rightarrow> time_of_day \<Rightarrow> time_of_day \<Rightarrow> (datetime \<times> datetime) list" where
  "slot_finder_spec s duration window_start window_end =
     (let start_dt = combine (date_of (date s)) window_start;
          end_dt = combine (date_of (date s)) window_end;
          (slots, cursor) =
             walk_blocks_spec duration (sort_key start_time (time_blocks s)) ([], start_dt)
      in if total_seconds (end_dt - cursor) \<ge> real_of_int (duration * 60)
         then slots @ [(cursor, end_dt)]
         else slots)"



text \<open>Offering blocks one after the other to a container that holds \<open>present\<close>: a block that
  overlaps one already held is dropped, any other is appended.\<close>
fun accepted :: "TimeBlock list \<Rightarrow> TimeBlock list \<Rightarrow> TimeBlock list" where
  "accepted present [] = present"
| "accepted present (b # bs) =
     accepted (if list_ex (overlaps_with b) present then present else present @ [b]) bs"

text \<open>The break block of a given length that starts at a given time.\<close>
definition break_of :: "datetime \<Rightarrow> int \<Rightarrow> TimeBlock" where
  "break_of break_start bd =
     \<lparr> start_time = break_start, end_time = break_start + timedelta_minutes bd,
       block_type = BREAK, title = ''Break'', description = Some ''Study break'',
       assignment_id = None, course_id = None, is_fixed = False, priority = 1, tags = [] \<rparr>"

text \<open>The gap in minutes from the end of a block to the start of another.\<close>
definition gap_minutes :: "TimeBlock \<Rightarrow> TimeBlock \<Rightarrow> real" where
  "gap_minutes a b = total_seconds (start_time b - end_time a) / 60"

text \<open>The breaks for a list of blocks: one for every adjacent pair whose gap is at least the
  break duration, of the break duration, starting at the end of the first of the pair.\<close>
definition breaks_between :: "SchedulingConstraints \<Rightarrow> TimeBlock list \<Rightarrow> TimeBlock list" where
  "breaks_between c xs =
     map (\<lambda>(a, b). break_of (end_time a) (break_duration c))
       (filter (\<lambda>(a, b). gap_minutes a b \<ge> real_of_int (break_duration c)) (zip xs (tl xs)))"


section \<open>Example data\<close>

text \<open>A time of day on day 100.\<close>
definition clock :: "int \<Rightarrow> int \<Rightarrow> datetime" where
  "clock h m = combine 100 (time_hm h m)"

definition plain_block :: "datetime \<Rightarrow> datetime \<Rightarrow> BlockType \<Rightarrow> TimeBlock" where
  "plain_block s e t =
     \<lparr> start_time = s, end_time = e, block_type = t, title = ''x'', description = None,
       assignment_id = None, course_id = None, is_fixed = False, priority = 1, tags = [] \<rparr>"

definition plain_assignment :: "int \<Rightarrow> Assignment" where
  "plain_assignment est =
     \<lparr> a_id = 1, name = ''A'', a_course_id = 101, course_name = ''C'', due_date = None,
       assignment_type = HOMEWORK, a_priority = MEDIUM, estimated_duration = est,
       difficulty = 3, requires_preparation = False, preparation_time = 0,
       is_completed = False \<rparr>"

definition day_with_class :: Schedule where
  "day_with_class =
     fst (add_block (new_Schedule (clock 0 0)) (plain_block (clock 10 0) (clock 11 0) CLASS))"

definition day_with_two_classes :: Schedule where
  "day_with_two_classes =
     fst (add_block day_with_class (plain_block (clock 13 0) (clock 22 0) CLASS))"

definition done_task :: Assignment where
  "done_task = (plain_assignment 60) \<lparr> is_completed := True \<rparr>"

definition late_task :: Assignment where
  "late_task = (plain_assignment 60) \<lparr> due_date := Some (combine 99 (time_hm 12 0)) \<rparr>"

definition day_with_afternoon_class :: Schedule where
  "day_with_afternoon_class =
     fst (add_block (new_Schedule (clock 0 0)) (plain_block (clock 12 0) (clock 22 0) CLASS))"

definition long_study_day :: Schedule where
  "long_study_day =
     fst (add_block day_with_afternoon_class
       \<lparr> start_time = clock 9 0, end_time = clock 11 30, block_type = STUDY,
         title = ''Study: A'', description = Some ''Course: C'', assignment_id = Some 1,
         course_id = Some 101, is_fixed = False, priority = 1,
         tags = [''homework'', ''medium''] \<rparr>)"

definition day_with_early_class :: Schedule where
  "day_with_early_class =
     fst (add_block (new_Schedule (clock 0 0)) (plain_block (clock 7 0) (clock 8 0) CLASS))"




definition prepared_task :: Assignment where
  "prepared_task =
     (plain_assignment 120) \<lparr> requires_preparation := True, preparation_time := 30 \<rparr>"

definition long_prepared_task :: Assignment where
  "long_prepared_task =
     (plain_assignment 170) \<lparr> requires_preparation := True, preparation_time := 30 \<rparr>"

section \<open>Properties\<close>

subsection \<open>The non-overlap invariant\<close>

lemma overlaps_with_sym: "overlaps_with a b = overlaps_with b a"
  by (auto simp: overlaps_with_def)

lemma can_add_block_iff: "can_add_block bs b \<longleftrightarrow> list_all (\<lambda>e. \<not> overlaps_with b e) bs"
  by (induction bs) auto

lemma pairwise_disjoint_snoc:
  "pairwise_disjoint (bs @ [b]) \<longleftrightarrow> pairwise_disjoint bs \<and> list_all (\<lambda>e. \<not> overlaps_with b e) bs"
  by (induction bs) (auto simp: overlaps_with_sym)

lemma pairwise_disjoint_nth:
  "pairwise_disjoint bs \<longleftrightarrow>
     (\<forall>i < length bs. \<forall>j < length bs. i \<noteq> j \<longrightarrow> \<not> overlaps_with (bs ! i) (bs ! j))"
proof (induction bs)
  case Nil
  show ?case by simp
next
  case (Cons b bs)
  show ?case
  proof
    assume l: "pairwise_disjoint (b # bs)"
    show "\<forall>i < length (b # bs). \<forall>j < length (b # bs). i \<noteq> j \<longrightarrow> \<not> overlaps_with ((b # bs) ! i) ((b # bs) ! j)"
    proof (intro allI impI)
      fix i j assume i: "i < length (b # bs)" and j: "j < length (b # bs)" and ne: "i \<noteq> j"
      from l have hd: "\<forall>e \<in> set bs. \<not> overlaps_with b e" and tl: "pairwise_disjoint bs"
        by (auto simp: list_all_iff)
      show "\<not> overlaps_with ((b # bs) ! i) ((b # bs) ! j)"
      proof (cases i)
        case 0
        with ne j obtain j' where "j = Suc j'" "j' < length bs" by (cases j) auto
        with 0 hd show ?thesis by simp
      next
        case (Suc i')
        show ?thesis
        proof (cases j)
          case 0
          with Suc i hd show ?thesis by (simp add: overlaps_with_sym[of _ b])
        next
          case (Suc j')
          with \<open>i = Suc i'\<close> i j ne tl Cons.IH show ?thesis by simp
        qed
      qed
    qed
  next
    assume r: "\<forall>i < length (b # bs). \<forall>j < length (b # bs). i \<noteq> j \<longrightarrow> \<not> overlaps_with ((b # bs) ! i) ((b # bs) ! j)"
    have "\<forall>e \<in> set bs. \<not> overlaps_with b e"
    proof
      fix e assume "e \<in> set bs"
      then obtain k where k: "k < length bs" "bs ! k = e" by (auto simp: in_set_conv_nth)
      from r[rule_format, of 0 "Suc k"] k show "\<not> overlaps_with b e" by simp
    qed
    moreover have "pairwise_disjoint bs"
    proof -
      have "\<forall>i < length bs. \<forall>j < length bs. i \<noteq> j \<longrightarrow> \<not> overlaps_with (bs ! i) (bs ! j)"
      proof (intro allI impI)
        fix i j assume "i < length bs" "j < length bs" "i \<noteq> j"
        with r[rule_format, of "Suc i" "Suc j"] show "\<not> overlaps_with (bs ! i) (bs ! j)" by simp
      qed
      with Cons.IH show ?thesis by simp
    qed
    ultimately show "pairwise_disjoint (b # bs)" by (simp add: list_all_iff)
  qed
qed

lemma time_blocks_update_metrics [simp]: "time_blocks (update_metrics s) = time_blocks s"
  by (simp add: update_metrics_def Let_def)

lemma date_update_metrics [simp]: "date (update_metrics s) = date s"
  by (simp add: update_metrics_def Let_def)

lemma time_blocks_add_block:
  "time_blocks (fst (add_block s b)) =
     (if can_add_block (time_blocks s) b then time_blocks s @ [b] else time_blocks s)"
  by (simp add: add_block_def)

lemma add_block_disjoint:
  "pairwise_disjoint (time_blocks s) \<Longrightarrow> pairwise_disjoint (time_blocks (fst (add_block s b)))"
  by (simp add: time_blocks_add_block pairwise_disjoint_snoc can_add_block_iff)

lemma add_class_blocks_disjoint:
  "pairwise_disjoint (time_blocks s) \<Longrightarrow> pairwise_disjoint (time_blocks (add_class_blocks s cs d))"
  by (induction s cs d rule: add_class_blocks.induct) (simp_all add: add_block_disjoint)

lemma add_work_shifts_disjoint:
  "pairwise_disjoint (time_blocks s) \<Longrightarrow> add_work_shifts s ws d = Inr s'
     \<Longrightarrow> pairwise_disjoint (time_blocks s')"
  by (induction s ws d rule: add_work_shifts.induct)
     (auto simp: add_block_disjoint split: if_splits sum.splits)

lemma add_fixed_blocks_disjoint:
  "pairwise_disjoint (time_blocks s) \<Longrightarrow> add_fixed_blocks s cs ws d = Inr s'
     \<Longrightarrow> pairwise_disjoint (time_blocks s')"
  unfolding add_fixed_blocks_def
  by (rule add_work_shifts_disjoint[OF add_class_blocks_disjoint])

lemma schedule_single_assignment_disjoint:
  assumes "pairwise_disjoint (time_blocks s)"
    and "schedule_single_assignment c s a slots = Inr (s', slots')"
  shows "pairwise_disjoint (time_blocks s')"
proof -
  have "s' = s \<or> (\<exists>b. s' = fst (add_block s b))"
    using assms(2)
    by (auto simp: schedule_single_assignment_def Let_def split: sum.splits option.splits prod.splits bool.splits)
       (metis fst_conv)+
  with assms(1) show ?thesis by (auto simp: add_block_disjoint)
qed

lemma place_assignments_disjoint:
  "pairwise_disjoint (time_blocks s) \<Longrightarrow> place_assignments c s as d slots = Inr (s', slots')
     \<Longrightarrow> pairwise_disjoint (time_blocks s')"
proof (induction c s as d slots rule: place_assignments.induct)
  case (1 c schedule d available_slots)
  then show ?case by simp
next
  case (2 c schedule a rest d available_slots)
  show ?case
  proof (cases "can_schedule_assignment a d")
    case True
    with 2(4) obtain s1 sl1 where
      step: "schedule_single_assignment c schedule a available_slots = Inr (s1, sl1)"
      and rest: "place_assignments c s1 rest d sl1 = Inr (s', slots')"
      by (auto split: sum.splits prod.splits)
    from schedule_single_assignment_disjoint[OF 2(3) step]
    have "pairwise_disjoint (time_blocks s1)" .
    from 2(1)[OF True step refl this rest] show ?thesis .
  next
    case False
    with 2 show ?thesis by simp
  qed
qed

lemma schedule_assignments_for_day_disjoint:
  "pairwise_disjoint (time_blocks s) \<Longrightarrow> schedule_assignments_for_day c s as d = Inr s'
     \<Longrightarrow> pairwise_disjoint (time_blocks s')"
  by (auto simp: schedule_assignments_for_day_def Let_def
           split: if_splits sum.splits prod.splits dest: place_assignments_disjoint)

lemma add_breaks_loop_disjoint:
  "pairwise_disjoint (time_blocks s) \<Longrightarrow> add_breaks_loop c s bs = Inr s'
     \<Longrightarrow> pairwise_disjoint (time_blocks s')"
proof (induction c s bs rule: add_breaks_loop.induct)
  case (1 c schedule current_block next_block rest)
  let ?tb = "total_seconds (start_time next_block - end_time current_block) / 60"
  show ?case
  proof (cases "?tb \<ge> real_of_int (break_duration c)")
    case True
    with 1(4) obtain b where b: "break_block (end_time current_block) (break_duration c) = Inr b"
      and r: "add_breaks_loop c (fst (add_block schedule b)) (next_block # rest) = Inr s'"
      by (auto simp: Let_def split: sum.splits)
    show ?thesis
      by (rule 1(1)[OF refl True b add_block_disjoint[OF 1(3)] r])
  next
    case False
    with 1(4) have r: "add_breaks_loop c schedule (next_block # rest) = Inr s'"
      by (auto simp: Let_def)
    show ?thesis
      by (rule 1(2)[OF refl False 1(3) r])
  qed
qed simp_all

lemma add_breaks_and_optimize_disjoint:
  "pairwise_disjoint (time_blocks s) \<Longrightarrow> add_breaks_and_optimize c s = Inr s'
     \<Longrightarrow> pairwise_disjoint (time_blocks s')"
  by (auto simp: add_breaks_and_optimize_def Let_def split: if_splits dest: add_breaks_loop_disjoint)

lemma schedule_day_disjoint:
  "schedule_day c as ws cs d = Inr s' \<Longrightarrow> pairwise_disjoint (time_blocks s')"
proof -
  assume a: "schedule_day c as ws cs d = Inr s'"
  then obtain s1 s2 where
    1: "add_fixed_blocks (new_Schedule d) cs ws d = Inr s1" and
    2: "schedule_assignments_for_day c s1 as d = Inr s2" and
    3: "add_breaks_and_optimize c s2 = Inr s'"
    by (auto simp: schedule_day_def split: sum.splits)
  have "pairwise_disjoint (time_blocks (new_Schedule d))" by (simp add: new_Schedule_def)
  from add_fixed_blocks_disjoint[OF this 1] have "pairwise_disjoint (time_blocks s1)" .
  from schedule_assignments_for_day_disjoint[OF this 2] have "pairwise_disjoint (time_blocks s2)" .
  from add_breaks_and_optimize_disjoint[OF this 3] show ?thesis .
qed

lemma schedule_days_disjoint:
  "schedule_days c as ws cs d n = Inr ss \<Longrightarrow> \<forall>s \<in> set ss. pairwise_disjoint (time_blocks s)"
  by (induction n arbitrary: d ss) (auto split: sum.splits dest: schedule_day_disjoint)

text \<open>
  Claim C1. \<open>Schedule.add_block\<close> keeps the blocks of a container pairwise non-overlapping:
  it accepts a block exactly when the block overlaps none of the blocks present, and a
  refused block leaves the container as it was. Every \<open>Schedule\<close> that \<open>create_schedule\<close>
  returns has pairwise non-overlapping blocks. Two blocks overlap when each starts strictly
  before the other ends.
\<close>
theorem add_block_preserves_non_overlap:
  "(pairwise_disjoint (time_blocks s) \<longrightarrow> pairwise_disjoint (time_blocks (fst (add_block s b))))
   \<and> (snd (add_block s b) \<longleftrightarrow> \<not> (\<exists>e \<in> set (time_blocks s). overlaps_with b e))
   \<and> (\<not> snd (add_block s b) \<longrightarrow> fst (add_block s b) = s)
   \<and> (create_schedule c now assignments work_shifts class_schedule start_date days_ahead = Inr schedules
        \<longrightarrow> (\<forall>s' \<in> set schedules. pairwise_disjoint (time_blocks s')))"
proof (intro conjI impI)
  assume "pairwise_disjoint (time_blocks s)"
  then show "pairwise_disjoint (time_blocks (fst (add_block s b)))" by (rule add_block_disjoint)
next
  show "snd (add_block s b) \<longleftrightarrow> \<not> (\<exists>e \<in> set (time_blocks s). overlaps_with b e)"
    by (simp add: add_block_def can_add_block_iff list_all_iff)
next
  assume "\<not> snd (add_block s b)"
  then show "fst (add_block s b) = s" by (simp add: add_block_def split: if_splits)
next
  assume "create_schedule c now assignments work_shifts class_schedule start_date days_ahead = Inr schedules"
  then show "\<forall>s' \<in> set schedules. pairwise_disjoint (time_blocks s')"
    unfolding create_schedule_def by (rule schedule_days_disjoint)
qed

theorem add_block_preserves_non_overlap_witness:
  "pairwise_disjoint (time_blocks day_with_class)
   \<and> pairwise_disjoint (time_blocks (fst (add_block day_with_class (plain_block (clock 11 0) (clock 12 0) STUDY))))
   \<and> snd (add_block day_with_class (plain_block (clock 11 0) (clock 12 0) STUDY))
   \<and> \<not> snd (add_block day_with_class (plain_block (clock 10 30) (clock 11 30) STUDY))
   \<and> fst (add_block day_with_class (plain_block (clock 10 30) (clock 11 30) STUDY)) = day_with_class
   \<and> (\<exists>schedules.
         create_schedule default_constraints (clock 0 0) [plain_assignment 90] []
           [plain_block (clock 10 0) (clock 11 0) CLASS, plain_block (clock 13 0) (clock 22 0) CLASS]
           (clock 0 0) 1 = Inr schedules
         \<and> schedules \<noteq> []
         \<and> (\<forall>s' \<in> set schedules. pairwise_disjoint (time_blocks s')))"
proof -
  let ?ok = "plain_block (clock 11 0) (clock 12 0) STUDY"
  let ?bad = "plain_block (clock 10 30) (clock 11 30) STUDY"
  let ?res = "[\<lparr>date = clock 0 0,
         time_blocks =
           [plain_block (clock 10 0) (clock 11 0) CLASS,
            plain_block (clock 13 0) (clock 22 0) CLASS,
            \<lparr>start_time = clock 11 0, end_time = clock 12 30,
               block_type = STUDY, title = ''Study: A'',
               description = Some ''Course: C'', assignment_id = Some 1,
               course_id = Some 101, is_fixed = False, priority = 1,
               tags = [''homework'', ''medium'']\<rparr>],
         total_study_time = 90, total_break_time = 0,
         efficiency_score = 3 / 23\<rparr>]"
  have h: "pairwise_disjoint (time_blocks day_with_class)" by code_simp
  have ok: "\<not> (\<exists>e \<in> set (time_blocks day_with_class). overlaps_with ?ok e)" by code_simp
  have bad: "\<exists>e \<in> set (time_blocks day_with_class). overlaps_with ?bad e" by code_simp
  have run: "create_schedule default_constraints (clock 0 0) [plain_assignment 90] []
           [plain_block (clock 10 0) (clock 11 0) CLASS, plain_block (clock 13 0) (clock 22 0) CLASS]
           (clock 0 0) 1 = Inr ?res" by code_simp
  note t1 = add_block_preserves_non_overlap[of day_with_class ?ok default_constraints "clock 0 0"
      "[plain_assignment 90]" "[]"
      "[plain_block (clock 10 0) (clock 11 0) CLASS, plain_block (clock 13 0) (clock 22 0) CLASS]"
      "clock 0 0" 1 ?res]
  note t2 = add_block_preserves_non_overlap[of day_with_class ?bad default_constraints "clock 0 0"
      "[]" "[]" "[]" "clock 0 0" 0 "[]"]
  from t1 h have c1: "pairwise_disjoint (time_blocks (fst (add_block day_with_class ?ok)))" by blast
  from t1 ok have c2: "snd (add_block day_with_class ?ok)" by blast
  from t2 bad have c3: "\<not> snd (add_block day_with_class ?bad)" by blast
  from t2 c3 have c4: "fst (add_block day_with_class ?bad) = day_with_class" by blast
  from t1 run have c5: "\<forall>s' \<in> set ?res. pairwise_disjoint (time_blocks s')" by blast
  from h c1 c2 c3 c4 run c5 show ?thesis by blast
qed

subsection \<open>Metrics\<close>

lemma sum_list_filter_if:
  "sum_list (map f (filter P xs)) = (\<Sum>x \<leftarrow> xs. if P x then f x else (0::int))"
  by (induction xs) auto

lemma duration_minutes_nonneg:
  "start_time b \<le> end_time b \<Longrightarrow> 0 \<le> duration_minutes b"
  by (simp add: duration_minutes_def py_int_def total_seconds_def us_per_second_def)

lemma all_minutes_nonneg:
  "\<forall>b \<in> set bs. start_time b < end_time b \<Longrightarrow> 0 \<le> all_minutes bs"
  unfolding all_minutes_def
  by (induction bs) (auto simp: duration_minutes_nonneg intro!: add_nonneg_nonneg)

lemma study_minutes_bounds:
  "\<forall>b \<in> set bs. start_time b < end_time b \<Longrightarrow> 0 \<le> study_minutes bs \<and> study_minutes bs \<le> all_minutes bs"
  unfolding all_minutes_def study_minutes_def
proof (induction bs)
  case Nil
  then show ?case by simp
next
  case (Cons a bs)
  then have "0 \<le> duration_minutes a" by (simp add: duration_minutes_nonneg)
  with Cons show ?case by auto
qed

lemma update_metrics_fresh: 
  "\<forall>b \<in> set (time_blocks s). start_time b < end_time b \<Longrightarrow> metrics_fresh (update_metrics s)"
  using all_minutes_nonneg[of "time_blocks s"]
  by (auto simp: metrics_fresh_def update_metrics_def Let_def sum_list_filter_if
      study_minutes_def break_minutes_def all_minutes_def)

lemma set_pop_at: "set (pop_at xs i) \<subseteq> set xs"
  unfolding pop_at_def by (auto dest: in_set_takeD in_set_dropD)

lemma efficiency_in_unit_interval:
  assumes v: "\<forall>b \<in> set (time_blocks s). start_time b < end_time b" and f: "metrics_fresh s"
  shows "0 \<le> efficiency_score s \<and> efficiency_score s \<le> 1"
proof (cases "time_blocks s = [] \<or> all_minutes (time_blocks s) = 0")
  case True
  with f show ?thesis by (simp add: metrics_fresh_def)
next
  case False
  from study_minutes_bounds[OF v] all_minutes_nonneg[OF v] False
  have "0 \<le> study_minutes (time_blocks s)" "study_minutes (time_blocks s) \<le> all_minutes (time_blocks s)"
    "0 < all_minutes (time_blocks s)" by auto
  moreover from f False have "efficiency_score s =
     real_of_int (study_minutes (time_blocks s)) / real_of_int (all_minutes (time_blocks s))"
    by (simp add: metrics_fresh_def)
  ultimately show ?thesis by simp
qed

text \<open>
  Claim C5. After an \<open>add_block\<close> or a \<open>remove_block\<close> that changed the container, the
  cached metrics equal their defining formulas over the blocks now present: the study
  minutes, the break minutes, and the efficiency as study minutes over all minutes, 0 where
  there are no minutes to divide by. The efficiency then lies between 0 and 1, and it is 0
  for a day without blocks. Blocks are as their constructor admits them, ending after they
  start.
\<close>
theorem metrics_fresh_after_mutation:
  assumes "\<forall>e \<in> set (time_blocks s). start_time e < end_time e" and "start_time b < end_time b"
  shows "(snd (add_block s b) \<longrightarrow>
            metrics_fresh (fst (add_block s b))
            \<and> 0 \<le> efficiency_score (fst (add_block s b))
            \<and> efficiency_score (fst (add_block s b)) \<le> 1)
       \<and> (snd (remove_block s i) \<longrightarrow>
            metrics_fresh (fst (remove_block s i))
            \<and> 0 \<le> efficiency_score (fst (remove_block s i))
            \<and> efficiency_score (fst (remove_block s i)) \<le> 1
            \<and> (time_blocks (fst (remove_block s i)) = [] \<longrightarrow> efficiency_score (fst (remove_block s i)) = 0))
       \<and> metrics_fresh (new_Schedule d) \<and> efficiency_score (new_Schedule d) = 0"
proof (intro conjI impI)
  assume a: "snd (add_block s b)"
  then have eq: "fst (add_block s b) = update_metrics (s \<lparr> time_blocks := time_blocks s @ [b] \<rparr>)"
    by (simp add: add_block_def split: if_splits)
  have v: "\<forall>e \<in> set (time_blocks (fst (add_block s b))). start_time e < end_time e"
    using assms by (auto simp: eq)
  show f: "metrics_fresh (fst (add_block s b))"
    unfolding eq using assms by (intro update_metrics_fresh) auto
  from efficiency_in_unit_interval[OF v f]
  show "0 \<le> efficiency_score (fst (add_block s b))" "efficiency_score (fst (add_block s b)) \<le> 1"
    by simp_all
next
  assume a: "snd (remove_block s i)"
  then have eq: "fst (remove_block s i) =
      update_metrics (s \<lparr> time_blocks := pop_at (time_blocks s) (nat i) \<rparr>)"
    by (simp add: remove_block_def split: if_splits)
  have v: "\<forall>e \<in> set (time_blocks (fst (remove_block s i))). start_time e < end_time e"
    using assms set_pop_at[of "time_blocks s" "nat i"] by (auto simp: eq)
  show f: "metrics_fresh (fst (remove_block s i))"
    unfolding eq using assms set_pop_at[of "time_blocks s" "nat i"]
    by (intro update_metrics_fresh) auto
  from efficiency_in_unit_interval[OF v f]
  show "0 \<le> efficiency_score (fst (remove_block s i))" "efficiency_score (fst (remove_block s i)) \<le> 1"
    by simp_all
  assume "time_blocks (fst (remove_block s i)) = []"
  with f show "efficiency_score (fst (remove_block s i)) = 0" by (simp add: metrics_fresh_def)
next
  show "metrics_fresh (new_Schedule d)"
    by (simp add: metrics_fresh_def new_Schedule_def study_minutes_def break_minutes_def)
  show "efficiency_score (new_Schedule d) = 0" by (simp add: new_Schedule_def)
qed

theorem metrics_fresh_after_mutation_witness:
  "list_all (\<lambda>e. start_time e < end_time e) (time_blocks day_with_class)
   \<and> snd (add_block day_with_class (plain_block (clock 11 0) (clock 12 0) STUDY))
   \<and> metrics_fresh (fst (add_block day_with_class (plain_block (clock 11 0) (clock 12 0) STUDY)))
   \<and> efficiency_score (fst (add_block day_with_class (plain_block (clock 11 0) (clock 12 0) STUDY))) = 1 / 2
   \<and> snd (remove_block day_with_class 0)
   \<and> time_blocks (fst (remove_block day_with_class 0)) = []
   \<and> metrics_fresh (fst (remove_block day_with_class 0))
   \<and> efficiency_score (fst (remove_block day_with_class 0)) = 0"
proof -
  let ?b = "plain_block (clock 11 0) (clock 12 0) STUDY"
  have v: "\<forall>e \<in> set (time_blocks day_with_class). start_time e < end_time e" by code_simp
  have vb: "start_time ?b < end_time ?b" by code_simp
  have a: "snd (add_block day_with_class ?b)" by code_simp
  have r: "snd (remove_block day_with_class 0)" by code_simp
  have e: "time_blocks (fst (remove_block day_with_class 0)) = []" by code_simp
  have h: "efficiency_score (fst (add_block day_with_class ?b)) = 1 / 2" by code_simp
  note t = metrics_fresh_after_mutation[OF v vb, of 0]
  from t a have c1: "metrics_fresh (fst (add_block day_with_class ?b))" by blast
  from t r have c2: "metrics_fresh (fst (remove_block day_with_class 0))" by blast
  from t r e have c3: "efficiency_score (fst (remove_block day_with_class 0)) = 0" by blast
  from v have v': "list_all (\<lambda>e. start_time e < end_time e) (time_blocks day_with_class)"
    by (simp add: list_all_iff)
  from v' a c1 h r e c2 c3 show ?thesis by blast
qed

subsection \<open>Urgency and ranking\<close>

lemma days_until_due_spec_eq: "days_until_due_spec now due = max 0 (days (due - now))"
  by (simp only: days_until_due_spec_def days_def floor_divide_of_int_eq)

lemma priority_weight_eq: "priority_weight p = priority_scores p"
  by (cases p) (simp_all add: priority_weight_def)

text \<open>
  Claim C6. The urgency score is 0 without a due date, 10 when the days until due are 0, and
  otherwise the priority weight (1, 2, 3, 4 for low, medium, high, urgent) times the
  multiplier 3, 2, 1.5, 1 for at most 3, at most 7, at most 14 and more days, the days
  until due being the floor of the time to the due date in days, at least 0.
\<close>
theorem urgency_score_refines_spec: "urgency_score now a = urgency_spec now a"
  by (cases "due_date a")
     (simp_all add: urgency_score_def urgency_spec_def days_until_due_def days_until_due_spec_eq
        priority_weight_eq time_multiplier_spec_def Let_def)

lemma priority_order_inj: "priority_order p = priority_order q \<longleftrightarrow> p = q"
  by (cases p; cases q) simp_all

lemma urgency_score_eq_spec: "urgency_score now a = urgency_spec now a"
proof (cases "due_date a")
  case None
  then show ?thesis by (simp add: urgency_score_def urgency_spec_def days_until_due_def)
next
  case (Some due)
  then show ?thesis
    by (simp add: urgency_score_def urgency_spec_def days_until_due_def days_until_due_spec_eq
        priority_weight_eq time_multiplier_spec_def Let_def)
qed

lemma priority_order_le_iff:
  "priority_order p \<le> priority_order q \<longleftrightarrow> priority_level p \<le> priority_level q"
  by (cases p; cases q) (simp_all add: priority_level_def)

lemma sort_key_le_iff:
  "assignment_sort_key now a \<le> assignment_sort_key now b \<longleftrightarrow> ranked_before now a b"
  by (auto simp: assignment_sort_key_def ranked_before_def less_eq_prod_def
      urgency_score_eq_spec priority_order_le_iff)

lemma sort_key_eq_iff:
  "assignment_sort_key now a = (- u, - priority_order p) \<longleftrightarrow> urgency_spec now a = u \<and> a_priority a = p"
  by (auto simp: assignment_sort_key_def priority_order_inj urgency_score_eq_spec)

lemma ranking_puts_urgent_before_low:
  "map a_priority
     (sort_assignments_by_priority (clock 0 0)
        [(plain_assignment 60) \<lparr> a_priority := LOW \<rparr>, (plain_assignment 60) \<lparr> a_priority := MEDIUM \<rparr>,
         (plain_assignment 60) \<lparr> a_priority := URGENT \<rparr>, (plain_assignment 60) \<lparr> a_priority := HIGH \<rparr>])
   = [URGENT, HIGH, MEDIUM, LOW]"
  by code_simp

text \<open>
  Claim C7. The ranking is a function of its input that returns the same tasks ordered by
  descending urgency score and, among equal scores, by descending priority level, the levels
  being low, medium, high, urgent from the lowest; tasks with the same urgency score and the
  same priority level keep the order they had in the input.
\<close>
theorem ranking_sorted_and_stable:
  "sorted_wrt (ranked_before now) (sort_assignments_by_priority now assignments)
   \<and> mset (sort_assignments_by_priority now assignments) = mset assignments
   \<and> filter (\<lambda>a. urgency_spec now a = u \<and> a_priority a = p) (sort_assignments_by_priority now assignments)
       = filter (\<lambda>a. urgency_spec now a = u \<and> a_priority a = p) assignments"
proof (intro conjI)
  have "sorted (map (assignment_sort_key now) (sort_assignments_by_priority now assignments))"
    by (simp add: sort_assignments_by_priority_def)
  then show "sorted_wrt (ranked_before now) (sort_assignments_by_priority now assignments)"
    by (simp add: sorted_map sort_key_le_iff)
  show "mset (sort_assignments_by_priority now assignments) = mset assignments"
    by (simp add: sort_assignments_by_priority_def)
  have "filter (\<lambda>a. assignment_sort_key now a = (- u, - priority_order p))
          (sort_key (assignment_sort_key now) assignments)
        = filter (\<lambda>a. assignment_sort_key now a = (- u, - priority_order p)) assignments"
    by (rule sort_key_stable)
  then show "filter (\<lambda>a. urgency_spec now a = u \<and> a_priority a = p) (sort_assignments_by_priority now assignments)
       = filter (\<lambda>a. urgency_spec now a = u \<and> a_priority a = p) assignments"
    by (simp add: sort_key_eq_iff sort_assignments_by_priority_def)
qed

subsection \<open>Eligibility\<close>

lemma not_can_schedule:
  "is_completed a \<or> due_before_day a d \<Longrightarrow> \<not> can_schedule_assignment a d"
  by (auto simp: can_schedule_assignment_def due_before_day_def)

lemma place_assignments_filter:
  assumes "\<And>a. \<not> P a \<Longrightarrow> \<not> can_schedule_assignment a d"
  shows "place_assignments c s (filter P as) d slots = place_assignments c s as d slots"
proof (induction as arbitrary: s slots)
  case Nil
  show ?case by simp
next
  case (Cons a as)
  show ?case
  proof (cases "P a")
    case True
    then show ?thesis by (simp add: Cons.IH split: sum.splits prod.splits)
  next
    case False
    with assms have "\<not> can_schedule_assignment a d" by simp
    with False show ?thesis by (simp add: Cons.IH)
  qed
qed

lemma place_assignments_none_eligible:
  "\<forall>a \<in> set as. \<not> can_schedule_assignment a d \<Longrightarrow> place_assignments c s as d slots = Inr (s, slots)"
  by (induction as) auto

text \<open>
  Claim C4. A task whose completion flag is set, or whose due date falls strictly before the
  target day, is never eligible for placement on that day, and a placement pass over a task
  list gives the result, error or container, that it gives over the list without such
  tasks.
\<close>
theorem ineligible_tasks_are_skipped:
  "(is_completed a \<or> due_before_day a d \<longrightarrow> \<not> can_schedule_assignment a d)
   \<and> schedule_assignments_for_day c s assignments d
       = schedule_assignments_for_day c s
           (filter (\<lambda>a. \<not> is_completed a \<and> \<not> due_before_day a d) assignments) d"
proof
  show "is_completed a \<or> due_before_day a d \<longrightarrow> \<not> can_schedule_assignment a d"
    using not_can_schedule by blast
next
  let ?av = "filter (\<lambda>a. \<not> is_completed a) assignments"
  let ?keep = "filter (\<lambda>a. \<not> is_completed a \<and> \<not> due_before_day a d) assignments"
  let ?slots = "get_available_slots s (min_study_session c) (c_start_time c) (c_end_time c)"
  have av': "filter (\<lambda>a. \<not> is_completed a) ?keep = filter (\<lambda>a. \<not> due_before_day a d) ?av"
    by (induction assignments) auto
  have keep: "filter (\<lambda>a. \<not> is_completed a) ?keep = ?keep"
    by (induction assignments) auto
  have pl: "place_assignments c s (filter (\<lambda>a. \<not> due_before_day a d) ?av) d ?slots
            = place_assignments c s ?av d ?slots"
    by (rule place_assignments_filter) (simp add: not_can_schedule)
  show "schedule_assignments_for_day c s assignments d = schedule_assignments_for_day c s ?keep d"
  proof (cases "filter (\<lambda>a. \<not> due_before_day a d) ?av = []")
    case True
    then have "\<forall>a \<in> set ?av. \<not> can_schedule_assignment a d"
      by (auto simp: filter_empty_conv not_can_schedule)
    from place_assignments_none_eligible[OF this]
    have "place_assignments c s ?av d ?slots = Inr (s, ?slots)" .
    with True show ?thesis
      by (simp add: schedule_assignments_for_day_def Let_def av')
  next
    case False
    then have ne: "?av \<noteq> []" by (metis filter.simps(1))
    show ?thesis
      unfolding schedule_assignments_for_day_def Let_def av' pl
      using False ne by simp
  qed
qed

theorem ineligible_tasks_are_skipped_witness:
  "is_completed done_task \<and> \<not> can_schedule_assignment done_task (clock 0 0)
   \<and> due_before_day late_task (clock 0 0) \<and> \<not> can_schedule_assignment late_task (clock 0 0)
   \<and> schedule_assignments_for_day default_constraints day_with_two_classes
        [done_task, late_task, plain_assignment 90] (clock 0 0)
      = schedule_assignments_for_day default_constraints day_with_two_classes
        [plain_assignment 90] (clock 0 0)
   \<and> (case schedule_assignments_for_day default_constraints day_with_two_classes
              [done_task, late_task, plain_assignment 90] (clock 0 0) of
         Inl e \<Rightarrow> [] | Inr s' \<Rightarrow> map assignment_id (time_blocks s')) = [None, None, Some 1]"
proof -
  let ?as = "[done_task, late_task, plain_assignment 90]"
  have d: "is_completed done_task" by code_simp
  have l: "due_before_day late_task (clock 0 0)" by code_simp
  have f: "filter (\<lambda>a. \<not> is_completed a \<and> \<not> due_before_day a (clock 0 0)) ?as = [plain_assignment 90]"
    by code_simp
  note t1 = ineligible_tasks_are_skipped[of done_task "clock 0 0" default_constraints
      day_with_two_classes ?as]
  note t2 = ineligible_tasks_are_skipped[of late_task "clock 0 0" default_constraints
      day_with_two_classes ?as]
  from t1 d have c1: "\<not> can_schedule_assignment done_task (clock 0 0)" by blast
  from t2 l have c2: "\<not> can_schedule_assignment late_task (clock 0 0)" by blast
  from t1 f have c3: "schedule_assignments_for_day default_constraints day_with_two_classes ?as (clock 0 0)
      = schedule_assignments_for_day default_constraints day_with_two_classes [plain_assignment 90] (clock 0 0)"
    by simp
  have "(case schedule_assignments_for_day default_constraints day_with_two_classes
              [plain_assignment 90] (clock 0 0) of
         Inl e \<Rightarrow> [] | Inr s' \<Rightarrow> map assignment_id (time_blocks s')) = [None, None, Some 1]"
    by code_simp
  with c3 have c4: "(case schedule_assignments_for_day default_constraints day_with_two_classes
              ?as (clock 0 0) of
         Inl e \<Rightarrow> [] | Inr s' \<Rightarrow> map assignment_id (time_blocks s')) = [None, None, Some 1]"
    by simp
  from d l c1 c2 c3 c4 show ?thesis by blast
qed

subsection \<open>Placement of one task\<close>

lemma find_best_slot_Some:
  "find_best_slot tn slots (best, score) = Inr (Some slot, score')
   \<Longrightarrow> best = Some slot \<or> (slot \<in> set slots \<and> real_of_int tn \<le> slot_minutes slot)"
proof (induction slots arbitrary: best score)
  case Nil
  then show ?case by simp
next
  case (Cons p slots)
  obtain st et where p: "p = (st, et)" by (cases p)
  from Cons.prems show ?case
    unfolding p
    by (auto simp: Let_def slot_minutes_def split: if_splits dest!: Cons.IH)
qed

lemma find_best_slot_too_short:
  "\<forall>slot \<in> set slots. slot_minutes slot < real_of_int tn
   \<Longrightarrow> find_best_slot tn slots (best, score) = Inr (best, score)"
proof (induction slots)
  case Nil
  then show ?case by simp
next
  case (Cons p slots)
  obtain st et where p: "p = (st, et)" by (cases p)
  from Cons show ?case unfolding p by (simp add: slot_minutes_def Let_def)
qed

lemma study_block_Inr:
  assumes "study_block a st tn = Inr b"
  shows "0 < tn \<and> start_time b = st \<and> end_time b = st + timedelta_minutes tn
         \<and> block_type b = STUDY \<and> assignment_id b = Some (a_id a) \<and> duration_minutes b = tn"
proof -
  from assms have pos: "0 < tn"
    by (auto simp: study_block_def end_time_after_start_def timedelta_minutes_def us_per_minute_def
        split: if_splits)
  from assms have b: "start_time b = st" "end_time b = st + timedelta_minutes tn"
    "block_type b = STUDY" "assignment_id b = Some (a_id a)"
    by (auto simp: study_block_def end_time_after_start_def split: if_splits)
  have "duration_minutes b = tn"
    using pos by (simp add: duration_minutes_def b timedelta_minutes_def us_per_minute_def
        total_seconds_def us_per_second_def py_int_def)
  with pos b show ?thesis by simp
qed

lemma slot_fits:
  "real_of_int tn \<le> slot_minutes (st, et) \<Longrightarrow> st + timedelta_minutes tn \<le> et"
proof -
  assume "real_of_int tn \<le> slot_minutes (st, et)"
  then have "real_of_int tn * 60000000 \<le> real_of_int (et - st)"
    by (simp add: slot_minutes_def total_seconds_def us_per_second_def field_simps)
  then have "real_of_int (tn * 60000000) \<le> real_of_int (et - st)" by simp
  then have "tn * 60000000 \<le> et - st" by (simp only: of_int_le_iff)
  then show ?thesis by (simp add: timedelta_minutes_def us_per_minute_def)
qed

lemma schedule_single_assignment_cases:
  assumes "schedule_single_assignment c s a slots = Inr (s', slots')"
  shows "(s' = s \<and> slots' = slots)
       \<or> (\<exists>b slot. slot \<in> set slots \<and> real_of_int (total_time_needed a) \<le> slot_minutes slot
            \<and> study_block a (fst slot) (total_time_needed a) = Inr b
            \<and> add_block s b = (s', True) \<and> slots' = remove1 slot slots)"
proof -
  let ?tn = "total_time_needed a"
  from assms obtain best score where f: "find_best_slot ?tn slots (None, - 1) = Inr (best, score)"
    by (auto simp: schedule_single_assignment_def Let_def split: sum.splits)
  show ?thesis
  proof (cases best)
    case None
    with assms f show ?thesis by (simp add: schedule_single_assignment_def Let_def)
  next
    case (Some slot)
    obtain st et where slot: "slot = (st, et)" by (cases slot)
    from find_best_slot_Some[OF f[unfolded Some]]
    have in_slots: "slot \<in> set slots" and fits: "real_of_int ?tn \<le> slot_minutes slot" by auto
    from assms f Some slot obtain b where b: "study_block a st ?tn = Inr b"
      by (auto simp: schedule_single_assignment_def Let_def split: sum.splits)
    show ?thesis
    proof (cases "snd (add_block s b)")
      case True
      with assms f Some slot b have "add_block s b = (s', True)" "slots' = remove1 slot slots"
        by (auto simp: schedule_single_assignment_def Let_def split: prod.splits bool.splits)
      with in_slots fits b slot show ?thesis by auto
    next
      case False
      then have "add_block s b = (s, False)" by (simp add: add_block_def split: if_splits)
      with assms f Some slot b show ?thesis
        by (simp add: schedule_single_assignment_def Let_def)
    qed
  qed
qed

lemma add_block_True_blocks: "add_block s b = (s', True) \<Longrightarrow> time_blocks s' = time_blocks s @ [b]"
  by (auto simp: add_block_def split: if_splits)

lemma schedule_single_assignment_ignores_constraints:
  "schedule_single_assignment c s a slots = schedule_single_assignment c' s a slots"
  by (simp add: schedule_single_assignment_def)

lemma place_assignments_ignores_constraints:
  "place_assignments c s as d slots = place_assignments c' s as d slots"
proof (induction as arbitrary: s slots)
  case Nil
  show ?case by simp
next
  case (Cons a as)
  show ?case
    by (simp add: Cons.IH schedule_single_assignment_ignores_constraints[of c _ _ _ c']
        split: sum.splits prod.splits)
qed

lemma place_assignments_blocks:
  "place_assignments c s as d slots = Inr (s', slots')
   \<Longrightarrow> \<exists>placed bs. subseq placed as \<and> time_blocks s' = time_blocks s @ bs
         \<and> list_all2 block_for_task bs placed"
proof (induction as arbitrary: s slots)
  case Nil
  then show ?case by simp
next
  case (Cons a as)
  show ?case
  proof (cases "can_schedule_assignment a d")
    case False
    with Cons.prems have "place_assignments c s as d slots = Inr (s', slots')" by simp
    from Cons.IH[OF this] obtain placed bs where
      "subseq placed as" "time_blocks s' = time_blocks s @ bs" "list_all2 block_for_task bs placed"
      by blast
    then show ?thesis by (intro exI[of _ placed] exI[of _ bs]) (simp add: list_emb_Cons)
  next
    case True
    with Cons.prems obtain s1 sl1 where
      step: "schedule_single_assignment c s a slots = Inr (s1, sl1)" and
      rest: "place_assignments c s1 as d sl1 = Inr (s', slots')"
      by (auto split: sum.splits prod.splits)
    from Cons.IH[OF rest] obtain placed bs where
      IH: "subseq placed as" "time_blocks s' = time_blocks s1 @ bs" "list_all2 block_for_task bs placed"
      by blast
    from schedule_single_assignment_cases[OF step] show ?thesis
    proof
      assume "s1 = s \<and> sl1 = slots"
      with IH show ?thesis by (intro exI[of _ placed] exI[of _ bs]) (simp add: list_emb_Cons)
    next
      assume "\<exists>b slot. slot \<in> set slots \<and> real_of_int (total_time_needed a) \<le> slot_minutes slot
            \<and> study_block a (fst slot) (total_time_needed a) = Inr b
            \<and> add_block s b = (s1, True) \<and> sl1 = remove1 slot slots"
      then obtain b slot where b: "study_block a (fst slot) (total_time_needed a) = Inr b"
        and add: "add_block s b = (s1, True)" by auto
      from study_block_Inr[OF b] have "block_for_task b a"
        by (simp add: block_for_task_def total_time_needed_def timedelta_minutes_def
            us_per_minute_def)
      moreover from add_block_True_blocks[OF add] IH(2)
      have "time_blocks s' = time_blocks s @ (b # bs)" by simp
      ultimately show ?thesis using IH(1,3)
        by (intro exI[of _ "a # placed"] exI[of _ "b # bs"]) simp
    qed
  qed
qed

lemma schedule_assignments_for_day_blocks:
  assumes "schedule_assignments_for_day c s as d = Inr s'"
  shows "\<exists>placed bs. subseq placed as \<and> time_blocks s' = time_blocks s @ bs
         \<and> list_all2 block_for_task bs placed"
proof -
  let ?av = "filter (\<lambda>a. \<not> is_completed a) as"
  let ?slots = "get_available_slots s (min_study_session c) (c_start_time c) (c_end_time c)"
  have trivial: "s' = s \<Longrightarrow> ?thesis"
    by (intro exI[of _ "[]"]) simp
  show ?thesis
  proof (cases "?av = [] \<or> ?slots = []")
    case True
    with assms have "s' = s"
      by (auto simp: schedule_assignments_for_day_def Let_def split: if_splits)
    then show ?thesis by (rule trivial)
  next
    case False
    with assms obtain slots' where "place_assignments c s ?av d ?slots = Inr (s', slots')"
      by (auto simp: schedule_assignments_for_day_def Let_def split: sum.splits prod.splits)
    from place_assignments_blocks[OF this] obtain placed bs where
      p: "subseq placed ?av" "time_blocks s' = time_blocks s @ bs" "list_all2 block_for_task bs placed"
      by blast
    have "subseq ?av as" by simp
    with p(1) have "subseq placed as" by (rule subseq_order.order_trans)
    with p(2,3) show ?thesis by blast
  qed
qed

text \<open>
  Claim C10. A call of the placer for one task either leaves the container and the slot list
  as they were or appends one study block, inside one of the free slots, that lasts exactly
  the task's estimated effort plus its preparation time; a task that needs more than every
  free slot offers leaves them as they were. Over a day, the study blocks appended stand, in
  order, for distinct tasks of the list, each lasting that task's estimated effort plus its
  preparation time. Neither the maximum session length nor the buffer time of the
  constraints changes any of these results.
\<close>
theorem placed_block_lasts_total_time_needed:
  "(schedule_single_assignment c s a slots = Inr (s', slots') \<longrightarrow>
      (s' = s \<and> slots' = slots)
      \<or> (\<exists>b slot. slot \<in> set slots \<and> time_blocks s' = time_blocks s @ [b]
            \<and> block_for_task b a \<and> start_time b = fst slot \<and> end_time b \<le> snd slot
            \<and> slots' = remove1 slot slots))
   \<and> ((\<forall>slot \<in> set slots.
          slot_minutes slot < real_of_int (estimated_duration a + preparation_time a)) \<longrightarrow>
        schedule_single_assignment c s a slots = Inr (s, slots))
   \<and> (schedule_assignments_for_day c s assignments d = Inr s2 \<longrightarrow>
        (\<exists>placed bs. subseq placed assignments \<and> time_blocks s2 = time_blocks s @ bs
           \<and> list_all2 block_for_task bs placed))
   \<and> schedule_single_assignment (c \<lparr> max_study_session := m, buffer_time := bt \<rparr>) s a slots
       = schedule_single_assignment c s a slots
   \<and> schedule_assignments_for_day (c \<lparr> max_study_session := m, buffer_time := bt \<rparr>) s assignments d
       = schedule_assignments_for_day c s assignments d"
proof (intro conjI impI)
  assume r: "schedule_single_assignment c s a slots = Inr (s', slots')"
  from schedule_single_assignment_cases[OF r]
  show "(s' = s \<and> slots' = slots)
      \<or> (\<exists>b slot. slot \<in> set slots \<and> time_blocks s' = time_blocks s @ [b]
            \<and> block_for_task b a \<and> start_time b = fst slot \<and> end_time b \<le> snd slot
            \<and> slots' = remove1 slot slots)"
  proof
    assume "s' = s \<and> slots' = slots"
    then show ?thesis by simp
  next
    assume "\<exists>b slot. slot \<in> set slots \<and> real_of_int (total_time_needed a) \<le> slot_minutes slot
            \<and> study_block a (fst slot) (total_time_needed a) = Inr b
            \<and> add_block s b = (s', True) \<and> slots' = remove1 slot slots"
    then obtain b slot where slot: "slot \<in> set slots"
      and fits: "real_of_int (total_time_needed a) \<le> slot_minutes slot"
      and b: "study_block a (fst slot) (total_time_needed a) = Inr b"
      and add: "add_block s b = (s', True)" and rem: "slots' = remove1 slot slots" by blast
    note sb = study_block_Inr[OF b]
    from slot_fits[of "total_time_needed a" "fst slot" "snd slot"] fits sb
    have "end_time b \<le> snd slot" by simp
    with slot sb add_block_True_blocks[OF add] rem
    have "slot \<in> set slots \<and> time_blocks s' = time_blocks s @ [b]
            \<and> block_for_task b a \<and> start_time b = fst slot \<and> end_time b \<le> snd slot
            \<and> slots' = remove1 slot slots"
      by (simp add: block_for_task_def total_time_needed_def timedelta_minutes_def
          us_per_minute_def)
    then show ?thesis by blast
  qed
next
  assume "\<forall>slot \<in> set slots.
      slot_minutes slot < real_of_int (estimated_duration a + preparation_time a)"
  then have "\<forall>slot \<in> set slots. slot_minutes slot < real_of_int (total_time_needed a)"
    by (simp only: total_time_needed_def)
  from find_best_slot_too_short[OF this]
  show "schedule_single_assignment c s a slots = Inr (s, slots)"
    by (simp add: schedule_single_assignment_def Let_def)
next
  assume "schedule_assignments_for_day c s assignments d = Inr s2"
  then show "\<exists>placed bs. subseq placed assignments \<and> time_blocks s2 = time_blocks s @ bs
           \<and> list_all2 block_for_task bs placed"
    by (rule schedule_assignments_for_day_blocks)
next
  show "schedule_single_assignment (c \<lparr> max_study_session := m, buffer_time := bt \<rparr>) s a slots
       = schedule_single_assignment c s a slots"
    by (rule schedule_single_assignment_ignores_constraints)
next
  show "schedule_assignments_for_day (c \<lparr> max_study_session := m, buffer_time := bt \<rparr>) s assignments d
       = schedule_assignments_for_day c s assignments d"
  proof -
    have "place_assignments (c \<lparr> max_study_session := m, buffer_time := bt \<rparr>) = place_assignments c"
      by (intro ext) (rule place_assignments_ignores_constraints)
    then show ?thesis by (simp add: schedule_assignments_for_day_def Let_def)
  qed
qed

theorem placed_block_lasts_total_time_needed_witness:
  "estimated_duration prepared_task = 120 \<and> preparation_time prepared_task = 30
   \<and> max_study_session default_constraints = 120
   \<and> schedule_single_assignment default_constraints day_with_afternoon_class prepared_task
       [(clock 9 0, clock 12 0)] = Inr (long_study_day, [])
   \<and> map (\<lambda>b. (block_type b, start_time b, end_time b, duration_minutes b)) (time_blocks long_study_day)
       = [(CLASS, clock 12 0, clock 22 0, 600), (STUDY, clock 9 0, clock 11 30, 150)]
   \<and> (\<exists>b. time_blocks long_study_day = time_blocks day_with_afternoon_class @ [b]
          \<and> block_for_task b prepared_task \<and> start_time b = clock 9 0
          \<and> end_time b \<le> clock 12 0)
   \<and> list_all (\<lambda>slot. slot_minutes slot
          < real_of_int (estimated_duration long_prepared_task + preparation_time long_prepared_task))
        [(clock 9 0, clock 12 0)]
   \<and> schedule_single_assignment default_constraints day_with_afternoon_class long_prepared_task
       [(clock 9 0, clock 12 0)] = Inr (day_with_afternoon_class, [(clock 9 0, clock 12 0)])
   \<and> schedule_assignments_for_day default_constraints day_with_afternoon_class
       [prepared_task] (clock 0 0) = Inr long_study_day
   \<and> (\<exists>placed bs. subseq placed [prepared_task]
          \<and> time_blocks long_study_day = time_blocks day_with_afternoon_class @ bs
          \<and> list_all2 block_for_task bs placed)"
proof -
  let ?c = default_constraints
  let ?s = day_with_afternoon_class
  let ?slots = "[(clock 9 0, clock 12 0)]"
  have e: "estimated_duration prepared_task = 120" by code_simp
  have pt: "preparation_time prepared_task = 30" by code_simp
  have m: "max_study_session ?c = 120" by code_simp
  have r: "schedule_single_assignment ?c ?s prepared_task ?slots = Inr (long_study_day, [])"
    by code_simp
  have bl: "map (\<lambda>b. (block_type b, start_time b, end_time b, duration_minutes b)) (time_blocks long_study_day)
       = [(CLASS, clock 12 0, clock 22 0, 600), (STUDY, clock 9 0, clock 11 30, 150)]"
    by code_simp
  have short: "list_all (\<lambda>slot. slot_minutes slot
          < real_of_int (estimated_duration long_prepared_task + preparation_time long_prepared_task)) ?slots"
    by code_simp
  have day: "schedule_assignments_for_day ?c ?s [prepared_task] (clock 0 0) = Inr long_study_day"
    by code_simp
  note t1 = placed_block_lasts_total_time_needed[of ?c ?s prepared_task ?slots
      long_study_day "[]" "[prepared_task]" "clock 0 0" long_study_day 120 30]
  note t2 = placed_block_lasts_total_time_needed[of ?c ?s long_prepared_task ?slots
      ?s ?slots "[]" "clock 0 0" ?s 120 30]
  from t1 r have "(long_study_day = ?s \<and> [] = ?slots)
      \<or> (\<exists>b slot. slot \<in> set ?slots \<and> time_blocks long_study_day = time_blocks ?s @ [b]
            \<and> block_for_task b prepared_task \<and> start_time b = fst slot
            \<and> end_time b \<le> snd slot \<and> [] = remove1 slot ?slots)"
    by blast
  then have c1: "\<exists>b. time_blocks long_study_day = time_blocks ?s @ [b]
          \<and> block_for_task b prepared_task \<and> start_time b = clock 9 0
          \<and> end_time b \<le> clock 12 0"
    by auto
  from short have "\<forall>slot \<in> set ?slots. slot_minutes slot
      < real_of_int (estimated_duration long_prepared_task + preparation_time long_prepared_task)"
    by (simp only: list_all_iff)
  with t2 have c2: "schedule_single_assignment ?c ?s long_prepared_task ?slots = Inr (?s, ?slots)"
    by blast
  from t1 day have c3: "\<exists>placed bs. subseq placed [prepared_task]
          \<and> time_blocks long_study_day = time_blocks ?s @ bs \<and> list_all2 block_for_task bs placed"
    by blast
  from e pt m r bl c1 short c2 day c3 show ?thesis by blast
qed

subsection \<open>The search for the best slot\<close>

lemma find_best_slot_step:
  "tn \<noteq> 0 \<Longrightarrow> find_best_slot tn (slot # rest) (best, score) =
     (if real_of_int tn \<le> slot_minutes slot \<and> slot_score tn slot > score
      then find_best_slot tn rest (Some slot, slot_score tn slot)
      else find_best_slot tn rest (best, score))"
  by (cases slot) (simp add: Let_def slot_minutes_def slot_score_def)

lemma find_best_slot_total:
  "tn \<noteq> 0 \<Longrightarrow> \<exists>best' score'. find_best_slot tn slots (best, score) = Inr (best', score')"
  by (induction slots arbitrary: best score) (simp_all add: find_best_slot_step)

lemma find_best_slot_bound:
  assumes "tn \<noteq> 0" and "find_best_slot tn slots (best, score) = Inr (best', score')"
  shows "score \<le> score'
       \<and> (\<forall>slot \<in> set slots. real_of_int tn \<le> slot_minutes slot \<longrightarrow> slot_score tn slot \<le> score')"
  using assms(2)
proof (induction slots arbitrary: best score)
  case Nil
  then show ?case by simp
next
  case (Cons slot rest)
  show ?case
  proof (cases "real_of_int tn \<le> slot_minutes slot \<and> slot_score tn slot > score")
    case True
    with Cons.prems assms(1)
    have "find_best_slot tn rest (Some slot, slot_score tn slot) = Inr (best', score')"
      by (simp add: find_best_slot_step)
    from Cons.IH[OF this] True show ?thesis by auto
  next
    case False
    with Cons.prems assms(1) have "find_best_slot tn rest (best, score) = Inr (best', score')"
      by (simp add: find_best_slot_step)
    from Cons.IH[OF this] False show ?thesis by auto
  qed
qed

lemma find_best_slot_none_iff:
  assumes "tn \<noteq> 0"
  shows "find_best_slot tn slots (None, - 1) = Inr (None, - 1) \<longleftrightarrow>
         (\<forall>slot \<in> set slots. real_of_int tn \<le> slot_minutes slot \<longrightarrow> slot_score tn slot \<le> - 1)"
proof
  assume "find_best_slot tn slots (None, - 1) = Inr (None, - 1)"
  from find_best_slot_bound[OF assms this]
  show "\<forall>slot \<in> set slots. real_of_int tn \<le> slot_minutes slot \<longrightarrow> slot_score tn slot \<le> - 1"
    by simp
next
  assume "\<forall>slot \<in> set slots. real_of_int tn \<le> slot_minutes slot \<longrightarrow> slot_score tn slot \<le> - 1"
  then show "find_best_slot tn slots (None, - 1) = Inr (None, - 1)"
    using assms
  proof (induction slots)
    case Nil
    then show ?case by simp
  next
    case (Cons slot rest)
    then have no: "\<not> (real_of_int tn \<le> slot_minutes slot \<and> slot_score tn slot > - 1)" by auto
    from Cons have "find_best_slot tn rest (None, - 1) = Inr (None, - 1)" by simp
    then show ?case by (simp only: find_best_slot_step[OF Cons.prems(2)] no if_False)
  qed
qed

lemma claimed_example_is_placed:
  "(case schedule_single_assignment default_constraints (new_Schedule (clock 0 0)) (plain_assignment 90)
           [(clock 9 0, clock 11 0), (clock 14 0, clock 15 0)] of
      Inl e \<Rightarrow> None
    | Inr (s', slots') \<Rightarrow>
        Some (map (\<lambda>b. (block_type b, start_time b, end_time b)) (time_blocks s'), slots'))
   = Some ([(STUDY, clock 9 0, clock 10 30)], [(clock 14 0, clock 15 0)])"
  by code_simp

text \<open>
  Claim C2, at a task that needs 90 minutes and the single free slot from 09:00 to 22:00 of an
  empty day. The slot lasts 780 minutes, so it is a candidate; its score is
  \<open>0.6 * (1 - 690 / 90) + 0.4 * 1.0 = -3.6\<close>, which does not exceed the initial
  \<open>best_score\<close> of \<open>-1\<close>: the search ends without a slot, nothing is placed and the slot
  stays in the list.
\<close>
theorem only_candidate_scored_below_initial_best_score:
  "real_of_int (total_time_needed (plain_assignment 90)) \<le> slot_minutes (clock 9 0, clock 22 0)
   \<and> find_best_slot (total_time_needed (plain_assignment 90)) [(clock 9 0, clock 22 0)] (None, - 1)
       = Inr (None, - 1)
   \<and> schedule_single_assignment default_constraints (new_Schedule (clock 0 0)) (plain_assignment 90)
       [(clock 9 0, clock 22 0)]
       = Inr (new_Schedule (clock 0 0), [(clock 9 0, clock 22 0)])"
  by code_simp

lemma zero_time_needed_raises:
  "schedule_single_assignment default_constraints (new_Schedule (clock 0 0)) (plain_assignment 0)
       [(clock 9 0, clock 22 0)] = Inl ZeroDivisionError"
  by code_simp

subsection \<open>The Slot Finder\<close>

lemma walk_blocks_acc:
  "walk_blocks d bs (acc, cur) = (acc @ fst (walk_blocks d bs ([], cur)), snd (walk_blocks d bs ([], cur)))"
proof (induction bs arbitrary: acc cur)
  case Nil
  show ?case by simp
next
  case (Cons b bs)
  show ?case
    by (simp add: Cons.IH[of "acc @ [(cur, start_time b)]"] Cons.IH[of "[(cur, start_time b)]"]
        Cons.IH[of acc])
qed

lemma walk_blocks_cursor:
  "snd (walk_blocks d bs (acc, cur)) = (if bs = [] then cur else end_time (last bs))"
  by (induction bs arbitrary: acc cur) auto

lemma walk_blocks_Cons:
  "fst (walk_blocks d (b # bs) ([], cur)) =
     (if total_seconds (start_time b - cur) \<ge> real_of_int (d * 60) then [(cur, start_time b)] else [])
     @ fst (walk_blocks d bs ([], end_time b))"
  using walk_blocks_acc[of d bs "[(cur, start_time b)]" "end_time b"] by simp

lemma walk_blocks_slot_ends:
  "q \<in> set (fst (walk_blocks d bs ([], cur)))
   \<Longrightarrow> (fst q = cur \<or> fst q \<in> end_time ` set bs) \<and> snd q \<in> start_time ` set bs
       \<and> total_seconds (snd q - fst q) \<ge> real_of_int (d * 60)"
proof (induction bs arbitrary: cur)
  case Nil
  then show ?case by simp
next
  case (Cons b bs)
  from Cons.prems show ?case
    unfolding walk_blocks_Cons
    by (auto split: if_splits dest!: Cons.IH)
qed

lemma walk_blocks_chronological:
  assumes "sorted (map start_time bs)" and "\<forall>b \<in> set bs. start_time b < end_time b"
  shows "sorted_wrt (\<lambda>p q. snd p < fst q) (fst (walk_blocks d bs ([], cur)))"
  using assms
proof (induction bs arbitrary: cur)
  case Nil
  show ?case by simp
next
  case (Cons b bs)
  have later: "start_time b < fst q" if "q \<in> set (fst (walk_blocks d bs ([], end_time b)))" for q
  proof -
    from walk_blocks_slot_ends[OF that]
    have "fst q = end_time b \<or> fst q \<in> end_time ` set bs" by simp
    then show ?thesis
    proof
      assume "fst q = end_time b"
      with Cons.prems show ?thesis by simp
    next
      assume "fst q \<in> end_time ` set bs"
      then obtain r where r: "r \<in> set bs" "fst q = end_time r" by auto
      with Cons.prems have "start_time b \<le> start_time r" "start_time r < end_time r" by auto
      with r show ?thesis by simp
    qed
  qed
  from Cons have "sorted_wrt (\<lambda>p q. snd p < fst q) (fst (walk_blocks d bs ([], end_time b)))"
    by simp
  with later show ?case
    unfolding walk_blocks_Cons by (auto simp: sorted_wrt_append)
qed

lemma sorted_last_start:
  "sorted (map start_time bs) \<Longrightarrow> b \<in> set bs \<Longrightarrow> start_time b \<le> start_time (last bs)"
  by (induction bs) auto

lemma get_available_slots_unfold:
  "get_available_slots s d st et =
     (let bs = sort_key start_time (time_blocks s);
          cur = snd (walk_blocks d bs ([], combine (date_of (date s)) st))
      in fst (walk_blocks d bs ([], combine (date_of (date s)) st))
         @ (if total_seconds (combine (date_of (date s)) et - cur) \<ge> real_of_int (d * 60)
            then [(cur, combine (date_of (date s)) et)] else []))"
  by (simp add: get_available_slots_def Let_def split: prod.splits)

lemma get_available_slots_chronological:
  assumes "\<forall>b \<in> set (time_blocks s). start_time b < end_time b"
  shows "sorted_wrt (\<lambda>p q. snd p < fst q) (get_available_slots s d st et)"
proof -
  let ?bs = "sort_key start_time (time_blocks s)"
  let ?start = "combine (date_of (date s)) st"
  have srt: "sorted (map start_time ?bs)" by simp
  have val: "\<forall>b \<in> set ?bs. start_time b < end_time b" using assms by simp
  have chrono: "sorted_wrt (\<lambda>p q. snd p < fst q) (fst (walk_blocks d ?bs ([], ?start)))"
    by (rule walk_blocks_chronological[OF srt val])
  have before: "snd p < snd (walk_blocks d ?bs ([], ?start))"
    if "p \<in> set (fst (walk_blocks d ?bs ([], ?start)))" for p
  proof -
    from walk_blocks_slot_ends[OF that] obtain b where b: "b \<in> set ?bs" "snd p = start_time b"
      by auto
    then have ne: "?bs \<noteq> []" by (metis empty_iff empty_set)
    then have "last ?bs \<in> set ?bs" by (rule last_in_set)
    with val have "start_time (last ?bs) < end_time (last ?bs)" by blast
    with sorted_last_start[OF srt b(1)] b(2) ne show ?thesis
      by (simp only: walk_blocks_cursor if_False)
  qed
  show ?thesis
    unfolding get_available_slots_unfold Let_def
    using chrono before by (auto simp: sorted_wrt_append)
qed

lemma get_available_slots_long_enough:
  "slot \<in> set (get_available_slots s d st et)
   \<Longrightarrow> total_seconds (snd slot - fst slot) \<ge> real_of_int (d * 60)"
  unfolding get_available_slots_unfold Let_def
  by (auto split: if_splits dest: walk_blocks_slot_ends)

lemma list_all_insort_key:
  "list_all P (insort_key f x xs) \<longleftrightarrow> P x \<and> list_all P xs"
  by (simp add: list_all_iff set_insort_key)

lemma pairwise_disjoint_insort_key:
  "pairwise_disjoint (insort_key f x xs) \<longleftrightarrow> pairwise_disjoint (x # xs)"
proof (induction xs)
  case Nil
  show ?case by simp
next
  case (Cons y ys)
  show ?case
  proof (cases "f x \<le> f y")
    case True
    then show ?thesis by simp
  next
    case False
    then have "pairwise_disjoint (insort_key f x (y # ys))
        \<longleftrightarrow> list_all (\<lambda>e. \<not> overlaps_with y e) (insort_key f x ys) \<and> pairwise_disjoint (insort_key f x ys)"
      by simp
    also have "\<dots> \<longleftrightarrow> (\<not> overlaps_with y x \<and> list_all (\<lambda>e. \<not> overlaps_with y e) ys)
        \<and> pairwise_disjoint (x # ys)"
      by (simp only: list_all_insort_key Cons.IH)
    also have "\<dots> \<longleftrightarrow> pairwise_disjoint (x # y # ys)"
      by (auto simp: overlaps_with_sym[of y x])
    finally show ?thesis .
  qed
qed

lemma pairwise_disjoint_sort_key:
  "pairwise_disjoint (sort_key f xs) \<longleftrightarrow> pairwise_disjoint xs"
proof (induction xs)
  case Nil
  show ?case by simp
next
  case (Cons x xs)
  have "pairwise_disjoint (sort_key f (x # xs)) \<longleftrightarrow> pairwise_disjoint (x # sort_key f xs)"
    by (simp add: pairwise_disjoint_insort_key)
  also have "\<dots> \<longleftrightarrow> pairwise_disjoint (x # xs)"
    by (simp add: Cons.IH list_all_iff)
  finally show ?case .
qed

lemma walk_blocks_spec_eq:
  assumes "sorted (map start_time bs)" and "pairwise_disjoint bs"
    and "\<forall>b \<in> set bs. start_time b < end_time b" and "\<forall>b \<in> set bs. cur \<le> end_time b"
  shows "walk_blocks_spec d bs (acc, cur) = walk_blocks d bs (acc, cur)"
  using assms
proof (induction bs arbitrary: acc cur)
  case Nil
  show ?case by simp
next
  case (Cons b bs)
  have next_ends: "\<forall>r \<in> set bs. end_time b \<le> end_time r"
  proof
    fix r assume r: "r \<in> set bs"
    with Cons.prems have "start_time b \<le> start_time r" "start_time r < end_time r"
      "\<not> overlaps_with b r"
      by (auto simp: list_all_iff)
    then show "end_time b \<le> end_time r" by (simp add: overlaps_with_def)
  qed
  from Cons.prems have mx: "max cur (end_time b) = end_time b" by simp
  from Cons.prems have "sorted (map start_time bs)" "pairwise_disjoint bs"
    "\<forall>b \<in> set bs. start_time b < end_time b" by simp_all
  from Cons.IH[OF this next_ends] show ?case by (simp add: mx)
qed

lemma get_available_slots_refines_spec:
  assumes "pairwise_disjoint (time_blocks s)"
    and "\<forall>b \<in> set (time_blocks s). start_time b < end_time b"
    and "\<forall>b \<in> set (time_blocks s). combine (date_of (date s)) st \<le> end_time b"
  shows "get_available_slots s d st et = slot_finder_spec s d st et"
proof -
  let ?bs = "sort_key start_time (time_blocks s)"
  have "walk_blocks_spec d ?bs ([], combine (date_of (date s)) st)
        = walk_blocks d ?bs ([], combine (date_of (date s)) st)"
    using assms by (intro walk_blocks_spec_eq) (simp_all add: pairwise_disjoint_sort_key)
  then show ?thesis by (simp add: get_available_slots_def slot_finder_spec_def)
qed

text \<open>
  Where the walk of the code and the walk that never moves the cursor backward agree. Every
  slot the code returns is at least the minimum duration long, and the slots are in
  chronological order, each ending before the next starts. For a container whose blocks do
  not overlap and none of which ends before the window start, the result is that of the walk
  that never moves the cursor backward. On a container without blocks the result is the
  whole window if it is long enough.
\<close>
theorem slot_finder_walk:
  assumes "\<forall>b \<in> set (time_blocks s). start_time b < end_time b"
  shows "sorted_wrt (\<lambda>p q. snd p < fst q) (get_available_slots s d st et)
     \<and> (\<forall>slot \<in> set (get_available_slots s d st et).
           total_seconds (snd slot - fst slot) \<ge> real_of_int (d * 60))
     \<and> (pairwise_disjoint (time_blocks s)
          \<and> (\<forall>b \<in> set (time_blocks s). combine (date_of (date s)) st \<le> end_time b)
          \<longrightarrow> get_available_slots s d st et = slot_finder_spec s d st et)
     \<and> (time_blocks s = [] \<and> total_seconds (et - st) \<ge> real_of_int (d * 60)
          \<longrightarrow> get_available_slots s d st et
              = [(combine (date_of (date s)) st, combine (date_of (date s)) et)])"
proof (intro conjI impI ballI)
  show "sorted_wrt (\<lambda>p q. snd p < fst q) (get_available_slots s d st et)"
    by (rule get_available_slots_chronological[OF assms])
next
  fix slot assume "slot \<in> set (get_available_slots s d st et)"
  then show "total_seconds (snd slot - fst slot) \<ge> real_of_int (d * 60)"
    by (rule get_available_slots_long_enough)
next
  assume "pairwise_disjoint (time_blocks s)
          \<and> (\<forall>b \<in> set (time_blocks s). combine (date_of (date s)) st \<le> end_time b)"
  with assms show "get_available_slots s d st et = slot_finder_spec s d st et"
    by (intro get_available_slots_refines_spec) simp_all
next
  assume "time_blocks s = [] \<and> total_seconds (et - st) \<ge> real_of_int (d * 60)"
  then show "get_available_slots s d st et
              = [(combine (date_of (date s)) st, combine (date_of (date s)) et)]"
    by (simp add: get_available_slots_def combine_def)
qed

theorem slot_finder_walk_witness:
  "list_all (\<lambda>b. start_time b < end_time b) (time_blocks day_with_class)
   \<and> pairwise_disjoint (time_blocks day_with_class)
   \<and> list_all (\<lambda>b. combine (date_of (date day_with_class)) (time_hm 9 0) \<le> end_time b)
        (time_blocks day_with_class)
   \<and> get_available_slots day_with_class 30 (time_hm 9 0) (time_hm 22 0)
       = [(clock 9 0, clock 10 0), (clock 11 0, clock 22 0)]
   \<and> slot_finder_spec day_with_class 30 (time_hm 9 0) (time_hm 22 0)
       = get_available_slots day_with_class 30 (time_hm 9 0) (time_hm 22 0)
   \<and> sorted_wrt (\<lambda>p q. snd p < fst q) (get_available_slots day_with_class 30 (time_hm 9 0) (time_hm 22 0))
   \<and> time_blocks (new_Schedule (clock 0 0)) = []
   \<and> total_seconds (time_hm 22 0 - time_hm 9 0) \<ge> real_of_int (30 * 60)
   \<and> get_available_slots (new_Schedule (clock 0 0)) 30 (time_hm 9 0) (time_hm 22 0)
       = [(clock 9 0, clock 22 0)]"
proof -
  have v: "list_all (\<lambda>b. start_time b < end_time b) (time_blocks day_with_class)" by code_simp
  have p: "pairwise_disjoint (time_blocks day_with_class)" by code_simp
  have w: "list_all (\<lambda>b. combine (date_of (date day_with_class)) (time_hm 9 0) \<le> end_time b)
        (time_blocks day_with_class)" by code_simp
  have r: "get_available_slots day_with_class 30 (time_hm 9 0) (time_hm 22 0)
       = [(clock 9 0, clock 10 0), (clock 11 0, clock 22 0)]" by code_simp
  have e: "time_blocks (new_Schedule (clock 0 0)) = []" by code_simp
  have l: "total_seconds (time_hm 22 0 - time_hm 9 0) \<ge> real_of_int (30 * 60)" by code_simp
  have c: "[(combine (date_of (date (new_Schedule (clock 0 0)))) (time_hm 9 0),
             combine (date_of (date (new_Schedule (clock 0 0)))) (time_hm 22 0))]
           = [(clock 9 0, clock 22 0)]" by code_simp
  have v0: "\<forall>b \<in> set (time_blocks (new_Schedule (clock 0 0))). start_time b < end_time b"
    by (simp add: e)
  from v have v': "\<forall>b \<in> set (time_blocks day_with_class). start_time b < end_time b"
    by (simp only: list_all_iff)
  from w have w': "\<forall>b \<in> set (time_blocks day_with_class).
      combine (date_of (date day_with_class)) (time_hm 9 0) \<le> end_time b"
    by (simp only: list_all_iff)
  note t1 = slot_finder_walk[OF v', of 30 "time_hm 9 0" "time_hm 22 0"]
  note t2 = slot_finder_walk[OF v0, of 30 "time_hm 9 0" "time_hm 22 0"]
  from t1 p w' have c1: "slot_finder_spec day_with_class 30 (time_hm 9 0) (time_hm 22 0)
       = get_available_slots day_with_class 30 (time_hm 9 0) (time_hm 22 0)" by simp
  from t1 have c2: "sorted_wrt (\<lambda>p q. snd p < fst q)
       (get_available_slots day_with_class 30 (time_hm 9 0) (time_hm 22 0))" by blast
  from t2 e l have "get_available_slots (new_Schedule (clock 0 0)) 30 (time_hm 9 0) (time_hm 22 0)
       = [(combine (date_of (date (new_Schedule (clock 0 0)))) (time_hm 9 0),
           combine (date_of (date (new_Schedule (clock 0 0)))) (time_hm 22 0))]" by blast
  with c have c3: "get_available_slots (new_Schedule (clock 0 0)) 30 (time_hm 9 0) (time_hm 22 0)
       = [(clock 9 0, clock 22 0)]" by simp
  from v p w r c1 c2 e l c3 show ?thesis by blast
qed

text \<open>
  Claim C3, on a day whose only block is a class from 07:00 to 08:00, with the window from
  09:00 to 22:00 and the minimum duration 30. The walk sets the cursor to the end of the
  class, 08:00, earlier than the 09:00 it started from, and the slot returned is 08:00 to
  22:00, which starts before the window; the walk that never moves the cursor backward
  returns the slot 09:00 to 22:00. A task of 400 minutes is then placed at 08:00.
\<close>
theorem slot_finder_cursor_moves_earlier:
  "map (\<lambda>b. (block_type b, start_time b, end_time b)) (time_blocks day_with_early_class)
     = [(CLASS, clock 7 0, clock 8 0)]
   \<and> pairwise_disjoint (time_blocks day_with_early_class)
   \<and> combine (date_of (date day_with_early_class)) (time_hm 9 0) = clock 9 0
   \<and> snd (walk_blocks 30 (sort_key start_time (time_blocks day_with_early_class))
            ([], combine (date_of (date day_with_early_class)) (time_hm 9 0))) = clock 8 0
   \<and> clock 8 0 < clock 9 0
   \<and> get_available_slots day_with_early_class 30 (time_hm 9 0) (time_hm 22 0)
       = [(clock 8 0, clock 22 0)]
   \<and> slot_finder_spec day_with_early_class 30 (time_hm 9 0) (time_hm 22 0)
       = [(clock 9 0, clock 22 0)]
   \<and> (case schedule_assignments_for_day default_constraints day_with_early_class
              [plain_assignment 400] (clock 0 0) of
         Inl e \<Rightarrow> []
       | Inr s' \<Rightarrow> map (\<lambda>b. (block_type b, start_time b, end_time b)) (time_blocks s'))
       = [(CLASS, clock 7 0, clock 8 0), (STUDY, clock 8 0, clock 14 40)]"
  by code_simp

subsection \<open>The Fixed-Block Installer\<close>





lemma date_add_block [simp]: "date (fst (add_block s b)) = date s"
  by (simp add: add_block_def)

lemma add_class_blocks_date [simp]: "date (add_class_blocks s cs d) = date s"
  by (induction s cs d rule: add_class_blocks.induct) simp_all


lemma work_block_invalid:
  "\<not> shift_start_time w < shift_end_time w \<Longrightarrow> work_block w = Inl ValueError"
  by (simp add: work_block_def end_time_after_start_def)





subsection \<open>The Break Inserter\<close>

lemma breaks_between_short [simp]: "breaks_between c [] = []" "breaks_between c [a] = []"
  by (simp_all add: breaks_between_def)



lemma accepted_Cons: "accepted present (b # bs) = accepted (accepted present [b]) bs"
  by simp













end
